theory Spec2Isabelle
  imports Complex_Main "HOL-Library.Log_Nat"
begin

section \<open>Data and storage\<close>

text \<open>
  The escrow bot keeps one SQLite table \<open>deals\<close>. The status column holds one of the
  eight tokens of \<open>DealStatus\<close>.
\<close>

datatype DealStatus =
    NEW
  | PENDING_DEPOSIT
  | FUNDED
  | DELIVERED
  | RELEASED
  | DISPUTED
  | RESOLVED
  | CANCELED

text \<open>
  One row of the table, without its key. The columns \<open>amount\<close> and \<open>escrow_balance\<close> are
  SQLite REAL, Python floats in the program: IEEE doubles. A finite double is modelled by
  its exact value, a rational number; infinities and NaN are outside the model. The two
  seed columns are nullable.
\<close>

record deal_row =
  buyer_id :: int
  buyer_username :: "string option"
  seller_id :: int
  seller_username :: "string option"
  amount :: rat
  currency :: string
  description :: string
  status :: DealStatus
  escrow_balance :: rat
  seed_phrase :: "string option"
  seller_seed_phrase :: "string option"
  created_at :: string

text \<open>
  The table: its rows by primary key, and the AUTOINCREMENT counter (the largest key
  ever handed out, which SQLite keeps in \<open>sqlite_sequence\<close> and which survives DELETE).
  A key is a signed 64-bit integer; for a Python integer outside that range the sqlite3
  module raises OverflowError when the statement is executed, which is outside the model.
\<close>

record db =
  rows :: "int \<rightharpoonup> deal_row"
  seq :: int

definition sqlite_int :: "int \<Rightarrow> bool" where
  "sqlite_int i = (- (2 ^ 63) \<le> i \<and> i < 2 ^ 63)"

definition empty_db :: db where
  "empty_db = \<lparr>rows = Map.empty, seq = 0\<rparr>"

text \<open>The dataclass \<open>Deal\<close> that \<open>get_deal\<close> builds from a row: the seed columns are not in it.\<close>

record Deal =
  d_id :: int
  d_buyer_id :: int
  d_buyer_username :: "string option"
  d_seller_id :: int
  d_seller_username :: "string option"
  d_amount :: rat
  d_currency :: string
  d_description :: string
  d_status :: DealStatus
  d_escrow_balance :: rat
  d_created_at :: string

text \<open>
  What a call can fail with. The bot reports failures as chat messages:
  \<open>NotFound\<close> is "Deal not found.", \<open>Unauthorized\<close> is "Admin only." (or "You are not
  involved in this deal."), \<open>IllegalTransition\<close> is the message of a status check
  ("Deposit allowed only when status is NEW." and its siblings), \<open>ValidationError\<close> is
  "Winner must be 'buyer' or 'seller'.", and \<open>AttributeError\<close> is Python's error on
  formatting a deal that \<open>get_deal\<close> did not find.
\<close>

datatype error = NotFound | IllegalTransition | Unauthorized | ValidationError | AttributeError

definition get_deal :: "int \<Rightarrow> db \<Rightarrow> Deal option" where
  "get_deal deal_id c =
     (case rows c deal_id of
        None \<Rightarrow> None
      | Some row \<Rightarrow> Some \<lparr>d_id = deal_id,
          d_buyer_id = buyer_id row, d_buyer_username = buyer_username row,
          d_seller_id = seller_id row, d_seller_username = seller_username row,
          d_amount = amount row, d_currency = currency row,
          d_description = description row, d_status = status row,
          d_escrow_balance = escrow_balance row, d_created_at = created_at row\<rparr>)"

text \<open>
  \<open>UPDATE deals SET ... WHERE id=?\<close>: the rows that match are rewritten; when none matches
  the statement changes nothing and still succeeds.
\<close>

definition sql_update :: "int \<Rightarrow> (deal_row \<Rightarrow> deal_row) \<Rightarrow> db \<Rightarrow> db" where
  "sql_update deal_id f c =
     (case rows c deal_id of
        None \<Rightarrow> c
      | Some row \<Rightarrow> c\<lparr>rows := (rows c)(deal_id \<mapsto> f row)\<rparr>)"

text \<open>
  Rounding to the nearest integer, a tie going to the even neighbour.
\<close>

definition round_half_even :: "rat \<Rightarrow> int" where
  "round_half_even x =
     (let n = \<lfloor>x\<rfloor>; f = x - of_int n in
      if f < 1 / 2 then n
      else if 1 / 2 < f then n + 1
      else if even n then n else n + 1)"

text \<open>
  The double nearest to a number, a tie going to the even mantissa: what \<open>float(text)\<close>
  returns for a decimal, and what a REAL column stores for a number bound to it. With
  \<open>2 ^ e \<le> \<bar>x\<bar> < 2 ^ (e + 1)\<close> the doubles around \<open>x\<close> are the multiples of
  \<open>2 ^ (e - 52)\<close> (of \<open>2 ^ - 1074\<close> in the subnormal range). The largest finite double is
  \<open>max_double\<close>; a number that rounds beyond it becomes an infinity in the program and is
  outside the model.
\<close>

definition pow2 :: "int \<Rightarrow> rat" where
  "pow2 k = (if 0 \<le> k then 2 ^ nat k else 1 / 2 ^ nat (- k))"

definition floor_log2 :: "rat \<Rightarrow> int" where
  "floor_log2 x =
     (case quotient_of \<bar>x\<bar> of
        (p, q) \<Rightarrow> (let k = bitlen p - bitlen q in if pow2 k \<le> \<bar>x\<bar> then k else k - 1))"

definition to_double :: "rat \<Rightarrow> rat" where
  "to_double x =
     (if x = 0 then 0
      else (let q = pow2 (max (floor_log2 x - 52) (- 1074))
            in of_int (round_half_even (x / q)) * q))"

definition max_double :: rat where
  "max_double = (2 ^ 53 - 1) * 2 ^ 971"

text \<open>
  Python's \<open>round(x, 2)\<close> on a float: the exact value of \<open>x\<close> is rounded to the nearest
  multiple of one hundredth, a tie going to the even neighbour, and the float nearest to
  that decimal is returned.
\<close>

definition py_round2 :: "rat \<Rightarrow> rat" where
  "py_round2 x = to_double (of_int (round_half_even (x * 100)) / 100)"

text \<open>
  The three mutators of the store. None of them looks the row up first or inspects the
  cursor's row count, and for a key in SQLite's range none raises: each executes its
  UPDATE, commits and returns.
\<close>

definition update_deal_status :: "int \<Rightarrow> DealStatus \<Rightarrow> db \<Rightarrow> error + db" where
  "update_deal_status deal_id st c = Inr (sql_update deal_id (\<lambda>row. row\<lparr>status := st\<rparr>) c)"

definition update_deal_balance :: "int \<Rightarrow> rat \<Rightarrow> db \<Rightarrow> error + db" where
  "update_deal_balance deal_id new_balance c =
     Inr (sql_update deal_id (\<lambda>row. row\<lparr>escrow_balance := py_round2 new_balance\<rparr>) c)"

definition update_deal_seed_phrases :: "int \<Rightarrow> string \<Rightarrow> string \<Rightarrow> db \<Rightarrow> error + db" where
  "update_deal_seed_phrases deal_id sp ssp c =
     Inr (sql_update deal_id
            (\<lambda>row. row\<lparr>seed_phrase := Some sp, seller_seed_phrase := Some ssp\<rparr>) c)"

section \<open>Seed phrases\<close>

text \<open>The word list of \<open>generate_seed_phrase\<close>.\<close>

definition words :: "string list" where
  "words =
    [''abandon'', ''ability'', ''able'', ''about'', ''above'', ''absent'', ''absorb'',
     ''abstract'', ''absurd'', ''abuse'',
     ''access'', ''accident'', ''account'', ''accuse'', ''achieve'', ''acid'', ''acoustic'',
     ''acquire'', ''across'', ''act'',
     ''action'', ''actor'', ''actual'', ''adapt'', ''add'', ''addict'', ''address'',
     ''adjust'', ''admit'', ''adult'',
     ''advance'', ''advice'', ''aerobic'', ''affair'', ''afford'', ''afraid'', ''again'',
     ''age'', ''agent'', ''agree'',
     ''ahead'', ''aim'', ''air'', ''airport'', ''aisle'', ''alarm'', ''album'', ''alcohol'',
     ''alert'', ''alien'',
     ''all'', ''alley'', ''allow'', ''almost'', ''alone'', ''alpha'', ''already'', ''also'',
     ''alter'', ''always'']"

text \<open>
  \<open>random.sample(population, k)\<close> of Python's standard library, for a population of at
  most 277 elements when \<open>k = 24\<close>: a copy of the population is the pool, and the
  \<open>i\<close>-th pick takes \<open>pool[j]\<close> for \<open>j = randbelow(n - i)\<close> and moves the last
  element not yet picked, \<open>pool[n - i - 1]\<close>, into the vacancy. The generator is a
  parameter: \<open>draws i\<close> is the number behind the \<open>i\<close>-th call of \<open>randbelow\<close>, reduced
  into its range. (The library raises ValueError when \<open>k\<close> exceeds the population; the
  only call here asks for 24 of 60 words.)
\<close>

fun sample_loop :: "'a list \<Rightarrow> nat \<Rightarrow> nat \<Rightarrow> nat \<Rightarrow> (nat \<Rightarrow> nat) \<Rightarrow> 'a list" where
  "sample_loop pool n i 0 draws = []"
| "sample_loop pool n i (Suc k) draws =
     (let j = draws i mod (n - i) in
      pool ! j # sample_loop (pool[j := pool ! (n - i - 1)]) n (Suc i) k draws)"

definition random_sample :: "'a list \<Rightarrow> nat \<Rightarrow> (nat \<Rightarrow> nat) \<Rightarrow> 'a list" where
  "random_sample population k draws = sample_loop population (length population) 0 k draws"

text \<open>\<open>" ".join(ws)\<close>.\<close>

fun join_sp :: "string list \<Rightarrow> string" where
  "join_sp [] = []"
| "join_sp [w] = w"
| "join_sp (w # v # ws) = w @ '' '' @ join_sp (v # ws)"

text \<open>
  The characters \<open>str.split()\<close> treats as separators, among the ASCII ones: tab, line
  feed, vertical tab, form feed, carriage return, the four separators 28 to 31, and space.
\<close>

definition is_space :: "char \<Rightarrow> bool" where
  "is_space ch = (of_char ch \<in> {9, 10, 11, 12, 13, 28, 29, 30, 31, 32 :: nat})"

text \<open>
  \<open>s.split()\<close>: the maximal runs of characters that are not separators, in order;
  \<open>cur\<close> is the run being read.
\<close>

fun split_go :: "string \<Rightarrow> string \<Rightarrow> string list" where
  "split_go cur [] = (if cur = [] then [] else [cur])"
| "split_go cur (ch # s) =
     (if is_space ch then (if cur = [] then split_go [] s else cur # split_go [] s)
      else split_go (cur @ [ch]) s)"

definition split_ws :: "string \<Rightarrow> string list" where
  "split_ws s = split_go [] s"

definition generate_seed_phrase :: "(nat \<Rightarrow> nat) \<Rightarrow> string" where
  "generate_seed_phrase draws = join_sp (random_sample words 24 draws)"

definition split_seed_phrase :: "string \<Rightarrow> string \<times> string" where
  "split_seed_phrase sp =
     (let ws = split_ws sp in (join_sp (take 12 ws), join_sp (drop 12 ws)))"

definition safe_get_seed_phrases :: "int \<Rightarrow> db \<Rightarrow> string option \<times> string option" where
  "safe_get_seed_phrases deal_id c =
     (case rows c deal_id of
        None \<Rightarrow> (None, None)
      | Some row \<Rightarrow> (seed_phrase row, seller_seed_phrase row))"

text \<open>Python's \<open>not s\<close> for an optional string: true for None and for the empty string.\<close>

definition falsy :: "string option \<Rightarrow> bool" where
  "falsy s = (case s of None \<Rightarrow> True | Some t \<Rightarrow> t = [])"

text \<open>
  \<open>ensure_seed_phrases_exist\<close> returns the two halves, stored ones when both are there,
  fresh ones otherwise.
\<close>

definition ensure_seed_phrases_exist ::
  "int \<Rightarrow> (nat \<Rightarrow> nat) \<Rightarrow> db \<Rightarrow> (error + string option \<times> string option) \<times> db" where
  "ensure_seed_phrases_exist deal_id draws c =
     (case safe_get_seed_phrases deal_id c of
        (buyer_seed, seller_seed) \<Rightarrow>
          if falsy buyer_seed \<or> falsy seller_seed then
            (case split_seed_phrase (generate_seed_phrase draws) of
               (buyer_seed_half, seller_seed_half) \<Rightarrow>
                 (case update_deal_seed_phrases deal_id buyer_seed_half seller_seed_half c of
                    Inl e \<Rightarrow> (Inl e, c)
                  | Inr c1 \<Rightarrow> (Inr (Some buyer_seed_half, Some seller_seed_half), c1)))
          else (Inr (buyer_seed, seller_seed), c))"

section \<open>Creation and startup\<close>

text \<open>
  \<open>INSERT INTO deals\<close>: the new row gets the key after the largest one ever used, and its
  two REAL columns hold the numbers bound to them as doubles.
\<close>

definition sql_insert :: "deal_row \<Rightarrow> db \<Rightarrow> db" where
  "sql_insert row c =
     c\<lparr>rows := (rows c)(seq c + 1 \<mapsto>
            row\<lparr>amount := to_double (amount row),
                escrow_balance := to_double (escrow_balance row)\<rparr>),
       seq := seq c + 1\<rparr>"

text \<open>Python's \<open>str.upper\<close> on the ASCII letters.\<close>

definition upper :: "string \<Rightarrow> string" where
  "upper s = map (\<lambda>ch. if 97 \<le> (of_char ch :: nat) \<and> (of_char ch :: nat) \<le> 122
                          then char_of (of_char ch - (32 :: nat)) else ch) s"

text \<open>
  \<open>insert_deal\<close>: the row is inserted in status NEW with balance 0 and no seed phrases,
  then the two halves of a fresh phrase are stored in it. \<open>now\<close> is the clock's
  \<open>utcnow().isoformat()\<close>.
\<close>

definition insert_deal ::
  "int \<Rightarrow> string option \<Rightarrow> int \<Rightarrow> string option \<Rightarrow> rat \<Rightarrow> string \<Rightarrow> string \<Rightarrow>
   string \<Rightarrow> (nat \<Rightarrow> nat) \<Rightarrow> db \<Rightarrow> (error + int) \<times> db" where
  "insert_deal b_id b_un s_id s_un amt cur descr now draws c =
     (let c1 = sql_insert
                 \<lparr>buyer_id = b_id, buyer_username = b_un,
                  seller_id = s_id, seller_username = s_un,
                  amount = amt, currency = upper cur, description = descr,
                  status = NEW, escrow_balance = 0,
                  seed_phrase = None, seller_seed_phrase = None, created_at = now\<rparr> c;
          deal_id = seq c1
      in case split_seed_phrase (generate_seed_phrase draws) of
           (buyer_seed_half, seller_seed_half) \<Rightarrow>
             (case update_deal_seed_phrases deal_id buyer_seed_half seller_seed_half c1 of
                Inl e \<Rightarrow> (Inl e, c1)
              | Inr c2 \<Rightarrow> (Inr deal_id, c2)))"

text \<open>
  \<open>add_sample_deals\<close>: \<open>sample_deals\<close> stands for the 256 rows its loop draws from the
  random generator. The table is cleared (\<open>DELETE FROM deals\<close>) and the samples are
  inserted, each in the status and with the balance it was drawn with.
\<close>

definition add_sample_deals :: "deal_row list \<Rightarrow> db \<Rightarrow> db" where
  "add_sample_deals sample_deals c = fold sql_insert sample_deals (c\<lparr>rows := Map.empty\<rparr>)"

text \<open>
  \<open>init_db\<close>, run by \<open>build_app\<close> at every start of the process: the table is created
  when it is not there (on a new database file \<open>c\<close> is \<open>empty_db\<close>), then the samples
  are loaded.
\<close>

definition init_db :: "deal_row list \<Rightarrow> db \<Rightarrow> db" where
  "init_db sample_deals c = add_sample_deals sample_deals c"

section \<open>Blockchain verification\<close>

text \<open>
  \<open>verify_btc_deposit\<close>: \<open>r\<close> is the value of \<open>random.random()\<close>. The function reads
  nothing from the store: on \<open>r < 0.9\<close> it writes status FUNDED and the expected amount as
  balance.
\<close>

definition verify_btc_deposit :: "int \<Rightarrow> rat \<Rightarrow> rat \<Rightarrow> db \<Rightarrow> (error + bool) \<times> db" where
  "verify_btc_deposit deal_id expected_amount r c =
     (if r < 9 / 10 then
        (case update_deal_status deal_id FUNDED c of
           Inl e \<Rightarrow> (Inl e, c)
         | Inr c1 \<Rightarrow>
             (case update_deal_balance deal_id expected_amount c1 of
                Inl e \<Rightarrow> (Inl e, c1)
              | Inr c2 \<Rightarrow> (Inr True, c2)))
      else (Inr False, c))"

text \<open>The message the task prints after the check, when the deal is still in the store.\<close>

datatype notice = DepositVerified Deal | DepositFailed Deal

definition notify_deposit_success :: "int \<Rightarrow> db \<Rightarrow> notice option" where
  "notify_deposit_success deal_id c = map_option DepositVerified (get_deal deal_id c)"

definition notify_deposit_failed :: "int \<Rightarrow> db \<Rightarrow> notice option" where
  "notify_deposit_failed deal_id c = map_option DepositFailed (get_deal deal_id c)"

text \<open>
  \<open>schedule_deposit_verification\<close> once its 30 minutes of sleep are over: the store \<open>c\<close>
  is the one of that moment.
\<close>

definition schedule_deposit_verification ::
  "int \<Rightarrow> rat \<Rightarrow> rat \<Rightarrow> db \<Rightarrow> (error + notice option) \<times> db" where
  "schedule_deposit_verification deal_id expected_amount r c =
     (case verify_btc_deposit deal_id expected_amount r c of
        (Inl e, c1) \<Rightarrow> (Inl e, c1)
      | (Inr success, c1) \<Rightarrow>
          if success then (Inr (notify_deposit_success deal_id c1), c1)
          else (Inr (notify_deposit_failed deal_id c1), c1))"

section \<open>Bot flows\<close>

text \<open>Who sent the update: Telegram's \<open>from_user.id\<close> and \<open>from_user.username\<close>.\<close>

record user =
  uid :: int
  username :: "string option"

text \<open>
  What the bot answers: a failure message, the summary of a deal, the deposit
  instructions (with the seller's half as \<open>ask_seller_btc_address\<close> prints it), or the
  caller's half of the seed phrase.
\<close>

datatype reply =
    Failed error
  | Summary Deal
  | DepositRequired Deal string
  | SeedPhraseHalf "string option"

text \<open>
  The tail of every transition: the deal is read again and its summary is sent.
\<close>

definition show_summary :: "int \<Rightarrow> db \<Rightarrow> reply \<times> db" where
  "show_summary deal_id c =
     (case get_deal deal_id c of
        None \<Rightarrow> (Failed AttributeError, c)
      | Some d \<Rightarrow> (Summary d, c))"

text \<open>
  \<open>simulate_deposit_logic\<close> returns, next to the reply and the store, the verification
  tasks it hands to the event loop: the deal's id with the amount read at this moment.
\<close>

definition simulate_deposit_logic ::
  "user \<Rightarrow> (nat \<Rightarrow> nat) \<Rightarrow> int \<Rightarrow> db \<Rightarrow> reply \<times> db \<times> (int \<times> rat) list" where
  "simulate_deposit_logic caller draws deal_id c =
     (case get_deal deal_id c of
        None \<Rightarrow> (Failed NotFound, c, [])
      | Some d \<Rightarrow>
          if d_status d \<noteq> NEW then (Failed IllegalTransition, c, [])
          else
            (case split_seed_phrase (generate_seed_phrase draws) of
               (buyer_seed_half, seller_seed_half) \<Rightarrow>
                 (case update_deal_seed_phrases deal_id buyer_seed_half seller_seed_half c of
                    Inl e \<Rightarrow> (Failed e, c, [])
                  | Inr c1 \<Rightarrow>
                      (case update_deal_status deal_id PENDING_DEPOSIT c1 of
                         Inl e \<Rightarrow> (Failed e, c1, [])
                       | Inr c2 \<Rightarrow>
                           (DepositRequired d seller_seed_half, c2, [(deal_id, d_amount d)])))))"

definition mark_delivered :: "user \<Rightarrow> int \<Rightarrow> db \<Rightarrow> reply \<times> db" where
  "mark_delivered caller deal_id c =
     (case get_deal deal_id c of
        None \<Rightarrow> (Failed NotFound, c)
      | Some d \<Rightarrow>
          if d_status d \<notin> {FUNDED, DISPUTED} then (Failed IllegalTransition, c)
          else
            (case update_deal_status (d_id d) DELIVERED c of
               Inl e \<Rightarrow> (Failed e, c)
             | Inr c1 \<Rightarrow> show_summary (d_id d) c1))"

definition release_to_seller :: "user \<Rightarrow> int \<Rightarrow> db \<Rightarrow> reply \<times> db" where
  "release_to_seller caller deal_id c =
     (case get_deal deal_id c of
        None \<Rightarrow> (Failed NotFound, c)
      | Some d \<Rightarrow>
          if d_status d \<noteq> DELIVERED then (Failed IllegalTransition, c)
          else
            (case update_deal_status (d_id d) RELEASED c of
               Inl e \<Rightarrow> (Failed e, c)
             | Inr c1 \<Rightarrow>
                 (case update_deal_balance (d_id d) 0 c1 of
                    Inl e \<Rightarrow> (Failed e, c1)
                  | Inr c2 \<Rightarrow> show_summary (d_id d) c2)))"

definition open_dispute :: "user \<Rightarrow> int \<Rightarrow> db \<Rightarrow> reply \<times> db" where
  "open_dispute caller deal_id c =
     (case get_deal deal_id c of
        None \<Rightarrow> (Failed NotFound, c)
      | Some d \<Rightarrow>
          if d_status d \<notin> {FUNDED, DELIVERED} then (Failed IllegalTransition, c)
          else
            (case update_deal_status (d_id d) DISPUTED c of
               Inl e \<Rightarrow> (Failed e, c)
             | Inr c1 \<Rightarrow> show_summary (d_id d) c1))"

section \<open>Admin actions\<close>

text \<open>
  The administrators: the identity written into the program, and those that
  \<open>load_admins_from_env\<close> adds at startup from the numeric entries of ESCROW_ADMIN_IDS.
\<close>

definition ADMIN_IDS :: "int set" where
  "ADMIN_IDS = {6127489137}"

definition load_admins_from_env :: "int list \<Rightarrow> int set" where
  "load_admins_from_env ids = ADMIN_IDS \<union> set ids"

text \<open>
  \<open>resolve_cmd\<close> with its arguments parsed: the deal id and the winner in lower case.
  \<open>admins\<close> is the administrator set of the running process.
\<close>

definition resolve_cmd :: "int set \<Rightarrow> user \<Rightarrow> int \<Rightarrow> string \<Rightarrow> db \<Rightarrow> reply \<times> db" where
  "resolve_cmd admins caller deal_id winner c =
     (if uid caller \<notin> admins then (Failed Unauthorized, c)
      else
        (case get_deal deal_id c of
           None \<Rightarrow> (Failed NotFound, c)
         | Some d \<Rightarrow>
             if d_status d \<notin> {DISPUTED, FUNDED, DELIVERED} then (Failed IllegalTransition, c)
             else if winner \<notin> {''buyer'', ''seller''} then (Failed ValidationError, c)
             else
               (case (if winner = ''buyer'' then update_deal_balance (d_id d) 0 c
                      else update_deal_balance (d_id d) 0 c) of
                  Inl e \<Rightarrow> (Failed e, c)
                | Inr c1 \<Rightarrow>
                    (case update_deal_status (d_id d) RESOLVED c1 of
                       Inl e \<Rightarrow> (Failed e, c1)
                     | Inr c2 \<Rightarrow> show_summary (d_id d) c2))))"

definition cancel_cmd :: "int set \<Rightarrow> user \<Rightarrow> int \<Rightarrow> db \<Rightarrow> reply \<times> db" where
  "cancel_cmd admins caller deal_id c =
     (if uid caller \<notin> admins then (Failed Unauthorized, c)
      else
        (case get_deal deal_id c of
           None \<Rightarrow> (Failed NotFound, c)
         | Some d \<Rightarrow>
             (case update_deal_status (d_id d) CANCELED c of
                Inl e \<Rightarrow> (Failed e, c)
              | Inr c1 \<Rightarrow>
                  (case update_deal_balance (d_id d) 0 c1 of
                     Inl e \<Rightarrow> (Failed e, c1)
                   | Inr c2 \<Rightarrow> show_summary (d_id d) c2))))"

section \<open>Seed phrase command\<close>

definition show_seed_phrase :: "user \<Rightarrow> (nat \<Rightarrow> nat) \<Rightarrow> int \<Rightarrow> db \<Rightarrow> reply \<times> db" where
  "show_seed_phrase caller draws deal_id c =
     (case get_deal deal_id c of
        None \<Rightarrow> (Failed NotFound, c)
      | Some d \<Rightarrow>
          (let is_buyer = (d_buyer_id d = uid caller
                 \<or> (case username caller of None \<Rightarrow> False
                    | Some n \<Rightarrow> n \<noteq> [] \<and> d_buyer_username d = Some (CHR ''@'' # n)));
               is_seller = (d_seller_id d = uid caller
                 \<or> (case username caller of None \<Rightarrow> False
                    | Some n \<Rightarrow> n \<noteq> [] \<and> d_seller_username d = Some (CHR ''@'' # n)))
           in if \<not> (is_buyer \<or> is_seller) then (Failed Unauthorized, c)
              else
                (case ensure_seed_phrases_exist deal_id draws c of
                   (Inl e, c1) \<Rightarrow> (Failed e, c1)
                 | (Inr (buyer_seed, seller_seed), c1) \<Rightarrow>
                     if is_buyer then (SeedPhraseHalf buyer_seed, c1)
                     else (SeedPhraseHalf seller_seed, c1))))"

section \<open>The running system\<close>

text \<open>
  The process holds the store and the verification tasks that wait in the event loop,
  each with the deal id and the expected amount it was created with.
\<close>

record world =
  store :: db
  tasks :: "(int \<times> rat) list"

text \<open>
  What can happen while the process runs: the handlers registered by \<open>build_app\<close> and
  dispatched by \<open>on_button\<close>, and a waiting verification task coming due (\<open>Verify k r\<close>:
  the task at position \<open>k\<close>, with \<open>r\<close> the outcome of its random check).
  \<open>NewDeal\<close> is the end of the \<open>/newdeal\<close> conversation, where \<open>insert_deal\<close> is called
  with the fields collected; the other commands carry the caller and the parsed deal id.
\<close>

datatype command =
    NewDeal int "string option" int "string option" rat string string string "nat \<Rightarrow> nat"
  | Deposit user "nat \<Rightarrow> nat" int
  | Delivered user int
  | Release user int
  | Dispute user int
  | Resolve user int string
  | Cancel user int
  | Seed user "nat \<Rightarrow> nat" int
  | Verify nat rat

fun step :: "int set \<Rightarrow> command \<Rightarrow> world \<Rightarrow> world" where
  "step admins (NewDeal b_id b_un s_id s_un amt cur descr now draws) w =
     w\<lparr>store := snd (insert_deal b_id b_un s_id s_un amt cur descr now draws (store w))\<rparr>"
| "step admins (Deposit caller draws deal_id) w =
     (case simulate_deposit_logic caller draws deal_id (store w) of
        (r, c, ts) \<Rightarrow> w\<lparr>store := c, tasks := tasks w @ ts\<rparr>)"
| "step admins (Delivered caller deal_id) w =
     w\<lparr>store := snd (mark_delivered caller deal_id (store w))\<rparr>"
| "step admins (Release caller deal_id) w =
     w\<lparr>store := snd (release_to_seller caller deal_id (store w))\<rparr>"
| "step admins (Dispute caller deal_id) w =
     w\<lparr>store := snd (open_dispute caller deal_id (store w))\<rparr>"
| "step admins (Resolve caller deal_id winner) w =
     w\<lparr>store := snd (resolve_cmd admins caller deal_id winner (store w))\<rparr>"
| "step admins (Cancel caller deal_id) w =
     w\<lparr>store := snd (cancel_cmd admins caller deal_id (store w))\<rparr>"
| "step admins (Seed caller draws deal_id) w =
     w\<lparr>store := snd (show_seed_phrase caller draws deal_id (store w))\<rparr>"
| "step admins (Verify k r) w =
     (if k < length (tasks w) then
        (case tasks w ! k of
           (deal_id, expected_amount) \<Rightarrow>
             w\<lparr>store := snd (schedule_deposit_verification deal_id expected_amount r (store w)),
               tasks := take k (tasks w) @ drop (Suc k) (tasks w)\<rparr>)
      else w)"

fun run :: "int set \<Rightarrow> command list \<Rightarrow> world \<Rightarrow> world" where
  "run admins [] w = w"
| "run admins (cmd # cmds) w = run admins cmds (step admins cmd w)"

text \<open>
  A start of the process on the database \<open>c\<close>: \<open>init_db\<close> runs, and no verification task
  of an earlier process is left.
\<close>

definition startup :: "deal_row list \<Rightarrow> db \<Rightarrow> world" where
  "startup sample_deals c = \<lparr>store = init_db sample_deals c, tasks = []\<rparr>"

section \<open>Notions used in the statements\<close>

text \<open>A reply that is not a failure message.\<close>

definition succeeded :: "reply \<Rightarrow> bool" where
  "succeeded r = (case r of Failed e \<Rightarrow> False | _ \<Rightarrow> True)"

text \<open>A word that survives \<open>join\<close> followed by \<open>split\<close>: not empty, no separator in it.\<close>

definition clean :: "string \<Rightarrow> bool" where
  "clean w = (w \<noteq> [] \<and> (\<forall>ch \<in> set w. \<not> is_space ch))"

text \<open>
  Rows enter the table through INSERT only, so no key exceeds the AUTOINCREMENT counter.
\<close>

definition keys_below_seq :: "db \<Rightarrow> bool" where
  "keys_below_seq c = (\<forall>i \<in> dom (rows c). i \<le> seq c)"

text \<open>
  Every waiting verification task carries the amount of its deal, as long as the deal's
  row is in the store.
\<close>

definition tasks_agree :: "world \<Rightarrow> bool" where
  "tasks_agree w =
     (\<forall>t \<in> set (tasks w). fst t \<le> seq (store w)
        \<and> (\<forall>row. rows (store w) (fst t) = Some row \<longrightarrow> amount row = snd t))"

text \<open>
  The deal of the specification's scenario (amount 100, USD, "Laptop sale"), as the only
  row of a store, in a given status and with a given balance.
\<close>

definition laptop_row :: "DealStatus \<Rightarrow> rat \<Rightarrow> deal_row" where
  "laptop_row st bal =
     \<lparr>buyer_id = 11, buyer_username = Some ''@alice'',
      seller_id = 22, seller_username = Some ''@bob'',
      amount = 100, currency = ''USD'', description = ''Laptop sale'',
      status = st, escrow_balance = bal,
      seed_phrase = Some ''abandon'', seller_seed_phrase = Some ''ability'',
      created_at = ''2024-01-01T00:00:00''\<rparr>"

definition laptop_db :: "DealStatus \<Rightarrow> rat \<Rightarrow> db" where
  "laptop_db st bal = \<lparr>rows = [1 \<mapsto> laptop_row st bal], seq = 1\<rparr>"

definition laptop_deal :: "DealStatus \<Rightarrow> rat \<Rightarrow> Deal" where
  "laptop_deal st bal =
     \<lparr>d_id = 1, d_buyer_id = 11, d_buyer_username = Some ''@alice'',
      d_seller_id = 22, d_seller_username = Some ''@bob'',
      d_amount = 100, d_currency = ''USD'', d_description = ''Laptop sale'',
      d_status = st, d_escrow_balance = bal, d_created_at = ''2024-01-01T00:00:00''\<rparr>"

text \<open>Three callers: the administrator, the buyer of the laptop deal, and a stranger.\<close>

definition admin :: user where
  "admin = \<lparr>uid = 6127489137, username = Some ''admin''\<rparr>"

definition alice :: user where
  "alice = \<lparr>uid = 11, username = Some ''alice''\<rparr>"

definition stranger :: user where
  "stranger = \<lparr>uid = 999, username = None\<rparr>"

text \<open>
  What one step of the system may do to a row: the amount stays, a status other than NEW
  does not become NEW, and unless the step reseeds the row its two halves stay.
\<close>

definition keeps :: "bool \<Rightarrow> deal_row \<Rightarrow> deal_row \<Rightarrow> bool" where
  "keeps reseed row row' =
     (amount row' = amount row
      \<and> (status row \<noteq> NEW \<longrightarrow> status row' \<noteq> NEW)
      \<and> (\<not> reseed \<longrightarrow> seed_phrase row' = seed_phrase row
                         \<and> seller_seed_phrase row' = seller_seed_phrase row))"

text \<open>
  The two commands that write the seed columns of an existing row: a deposit on the deal
  while it is NEW, and the seed command on the deal while one of its halves is missing.
\<close>

fun reseeds :: "command \<Rightarrow> int \<Rightarrow> deal_row \<Rightarrow> bool" where
  "reseeds (Deposit caller draws deal_id) i row = (i = deal_id \<and> status row = NEW)"
| "reseeds (Seed caller draws deal_id) i row =
     (i = deal_id \<and> (falsy (seed_phrase row) \<or> falsy (seller_seed_phrase row)))"
| "reseeds cmd i row = False"

text \<open>A deposit command on the deal \<open>i\<close>.\<close>

fun deposits_on :: "int \<Rightarrow> command \<Rightarrow> bool" where
  "deposits_on i (Deposit caller draws deal_id) = (i = deal_id)"
| "deposits_on i cmd = False"

text \<open>
  The scenario of the specification as commands: the process starts on a new database
  with no samples, the laptop deal is created for a given amount, and the buyer starts
  the deposit.
\<close>

definition fresh_world :: world where
  "fresh_world = startup [] empty_db"

definition new_laptop_deal :: "rat \<Rightarrow> command" where
  "new_laptop_deal amt =
     NewDeal 11 (Some ''@alice'') 22 (Some ''@bob'') amt ''usd'' ''Laptop sale''
       ''2024-01-01T00:00:00'' (\<lambda>i. 0)"

definition laptop_pending_world :: world where
  "laptop_pending_world =
     run ADMIN_IDS [new_laptop_deal 100, Deposit alice (\<lambda>i. 1) 1] fresh_world"

definition laptop_pending_row :: deal_row where
  "laptop_pending_row =
     (laptop_row PENDING_DEPOSIT 0)
       \<lparr>seed_phrase :=
          Some ''ability always alter also already alpha alone almost allow alley all alien'',
        seller_seed_phrase :=
          Some ''alert alcohol album alarm aisle airport air aim ahead agree agent age''\<rparr>"

section \<open>Store mutators on a missing id\<close>

lemma sql_update_missing: "rows c deal_id = None \<Longrightarrow> sql_update deal_id f c = c"
  by (simp add: sql_update_def)

text \<open>
  C5, as the code has it: for an id in SQLite's integer range that is not in the store,
  each of the three mutators completes (it does not fail with NotFound) and leaves the
  store as it was, and \<open>get_deal\<close> reports not-found.
\<close>

theorem mutators_silent_on_missing_id:
  assumes "sqlite_int deal_id" and "rows c deal_id = None"
  shows "update_deal_status deal_id st c = Inr c
       \<and> update_deal_balance deal_id b c = Inr c
       \<and> update_deal_seed_phrases deal_id h1 h2 c = Inr c
       \<and> get_deal deal_id c = None"
  using assms
  by (simp add: update_deal_status_def update_deal_balance_def
      update_deal_seed_phrases_def get_deal_def sql_update_missing)

theorem mutators_silent_on_missing_id_witness:
  "sqlite_int 7
   \<and> rows empty_db 7 = None
   \<and> update_deal_status 7 FUNDED empty_db = Inr empty_db
   \<and> update_deal_balance 7 100 empty_db = Inr empty_db
   \<and> update_deal_seed_phrases 7 ''abandon'' ''ability'' empty_db = Inr empty_db
   \<and> get_deal 7 empty_db = None"
proof -
  have i: "sqlite_int 7" by (simp add: sqlite_int_def)
  have h: "rows empty_db 7 = None" by (simp add: empty_db_def)
  show ?thesis
    using i h mutators_silent_on_missing_id [OF i h, of FUNDED 100 "''abandon''" "''ability''"]
    by simp
qed

text \<open>
  C5 as the specification words it fails: on the empty store \<open>update_deal_status\<close> for
  id 7 returns normally instead of failing with NotFound.
\<close>

theorem set_status_missing_id_counterexample:
  "sqlite_int 7 \<and> rows empty_db 7 = None
   \<and> update_deal_status 7 FUNDED empty_db \<noteq> Inl NotFound"
  by (simp add: sqlite_int_def empty_db_def update_deal_status_def)

section \<open>Basic facts about the store\<close>

lemmas store_defs = get_deal_def sql_update_def update_deal_status_def
  update_deal_balance_def update_deal_seed_phrases_def show_summary_def

lemma round_half_even_of_int: "round_half_even (of_int m) = m"
  by (simp add: round_half_even_def)

lemma py_round2_zero [simp]: "py_round2 0 = 0"
  by (simp add: py_round2_def round_half_even_def to_double_def)

lemma to_double_zero [simp]: "to_double 0 = 0"
  by (simp add: to_double_def)

lemma laptop_get_deal [simp]: "get_deal 1 (laptop_db st bal) = Some (laptop_deal st bal)"
  by (simp add: get_deal_def laptop_db_def laptop_row_def laptop_deal_def)

lemma laptop_deal_sel [simp]:
  "d_status (laptop_deal st bal) = st"
  "d_escrow_balance (laptop_deal st bal) = bal"
  "d_id (laptop_deal st bal) = 1"
  "d_amount (laptop_deal st bal) = 100"
  by (simp_all add: laptop_deal_def)

section \<open>Secret issuance\<close>

text \<open>One pick of the sampling loop: what the pool holds before the vacancy is filled.\<close>

lemma pool_step_nth:
  assumes "m \<le> length pool" and "0 < m" and "j < m" and "a < m - 1"
  shows "take (m - 1) (pool[j := pool ! (m - 1)]) ! a
         = (if a = j then pool ! (m - 1) else pool ! a)"
  using assms by (simp add: nth_list_update)

lemma pool_step_distinct:
  assumes "m \<le> length pool" and "0 < m" and "j < m" and "distinct (take m pool)"
  shows "distinct (take (m - 1) (pool[j := pool ! (m - 1)]))"
proof -
  have inj: "\<And>a b. a < m \<Longrightarrow> b < m \<Longrightarrow> a \<noteq> b \<Longrightarrow> pool ! a \<noteq> pool ! b"
    using assms(1,4) by (auto simp: distinct_conv_nth)
  show ?thesis
    unfolding distinct_conv_nth
  proof (intro allI impI)
    fix a b
    assume a: "a < length (take (m - 1) (pool[j := pool ! (m - 1)]))"
      and b: "b < length (take (m - 1) (pool[j := pool ! (m - 1)]))" and ab: "a \<noteq> b"
    from a b assms(1) have am: "a < m - 1" and bm: "b < m - 1" by auto
    have "(if a = j then pool ! (m - 1) else pool ! a)
          \<noteq> (if b = j then pool ! (m - 1) else pool ! b)"
      using am bm ab inj [of a b] inj [of "m - 1" b] inj [of a "m - 1"] by auto
    then show "take (m - 1) (pool[j := pool ! (m - 1)]) ! a
               \<noteq> take (m - 1) (pool[j := pool ! (m - 1)]) ! b"
      using pool_step_nth [OF assms(1,2,3) am] pool_step_nth [OF assms(1,2,3) bm] by simp
  qed
qed

lemma pool_step_set:
  assumes "m \<le> length pool" and "0 < m" and "j < m" and "distinct (take m pool)"
  shows "set (take (m - 1) (pool[j := pool ! (m - 1)])) \<subseteq> set (take m pool) - {pool ! j}"
proof
  fix x assume "x \<in> set (take (m - 1) (pool[j := pool ! (m - 1)]))"
  then obtain a where a: "a < length (take (m - 1) (pool[j := pool ! (m - 1)]))"
    and x: "x = take (m - 1) (pool[j := pool ! (m - 1)]) ! a"
    by (auto simp: in_set_conv_nth)
  from a assms(1) have am: "a < m - 1" by auto
  have inj: "\<And>a b. a < m \<Longrightarrow> b < m \<Longrightarrow> a \<noteq> b \<Longrightarrow> pool ! a \<noteq> pool ! b"
    using assms(1,4) by (auto simp: distinct_conv_nth)
  have xe: "x = (if a = j then pool ! (m - 1) else pool ! a)"
    using x pool_step_nth [OF assms(1,2,3) am] by simp
  have mem: "\<And>b. b < m \<Longrightarrow> pool ! b \<in> set (take m pool)"
    using assms(1) by (auto simp: in_set_conv_nth intro!: exI)
  show "x \<in> set (take m pool) - {pool ! j}"
  proof (cases "a = j")
    case True
    then have "x = pool ! (m - 1)" using xe by simp
    moreover have "pool ! (m - 1) \<noteq> pool ! j"
      using inj [of "m - 1" j] True am assms by auto
    ultimately show ?thesis using mem [of "m - 1"] assms(2) by simp
  next
    case False
    then have "x = pool ! a" using xe by simp
    moreover have "pool ! a \<noteq> pool ! j" using inj [of a j] False am assms by auto
    ultimately show ?thesis using mem [of a] am by simp
  qed
qed

text \<open>
  The loop's invariant, as the library states it: the elements not yet picked are
  \<open>pool[0 : n - i]\<close>. From a pool without repetition the loop returns \<open>k\<close> different
  elements of it.
\<close>

lemma sample_loop_sound:
  "n \<le> length pool \<Longrightarrow> i + k \<le> n \<Longrightarrow> distinct (take (n - i) pool)
   \<Longrightarrow> length (sample_loop pool n i k draws) = k
     \<and> distinct (sample_loop pool n i k draws)
     \<and> set (sample_loop pool n i k draws) \<subseteq> set (take (n - i) pool)"
proof (induction k arbitrary: pool i)
  case 0
  then show ?case by simp
next
  case (Suc k)
  define m where "m = n - i"
  define j where "j = draws i mod m"
  define pool' where "pool' = pool[j := pool ! (m - 1)]"
  from Suc.prems have m: "0 < m" "m \<le> length pool" by (auto simp: m_def)
  then have j: "j < m" by (simp add: j_def)
  have d: "distinct (take m pool)" using Suc.prems by (simp add: m_def)
  have m1: "n - Suc i = m - 1" by (simp add: m_def)
  have d': "distinct (take (n - Suc i) pool')"
    unfolding m1 pool'_def by (rule pool_step_distinct [OF m(2) m(1) j d])
  have s': "set (take (n - Suc i) pool') \<subseteq> set (take m pool) - {pool ! j}"
    unfolding m1 pool'_def by (rule pool_step_set [OF m(2) m(1) j d])
  have len': "n \<le> length pool'" using Suc.prems by (simp add: pool'_def)
  have ik: "Suc i + k \<le> n" using Suc.prems by simp
  note IH = Suc.IH [OF len' ik d']
  have unfold: "sample_loop pool n i (Suc k) draws
                = pool ! j # sample_loop pool' n (Suc i) k draws"
    by (simp add: Let_def j_def m_def pool'_def)
  have jin: "pool ! j \<in> set (take m pool)"
    using j m by (auto simp: in_set_conv_nth intro!: exI [of _ j])
  show ?case
    unfolding unfold using IH s' jin by (auto simp: m_def)
qed

lemma split_go_word:
  "\<forall>ch \<in> set w. \<not> is_space ch \<Longrightarrow> split_go cur (w @ s) = split_go (cur @ w) s"
  by (induction w arbitrary: cur) auto

lemma split_join: "\<forall>w \<in> set ws. clean w \<Longrightarrow> split_ws (join_sp ws) = ws"
  unfolding split_ws_def
proof (induction ws rule: join_sp.induct)
  case 1
  then show ?case by simp
next
  case (2 w)
  then show ?case using split_go_word [of w "[]" "[]"] by (simp add: clean_def)
next
  case (3 w v ws)
  have sp: "is_space CHR '' ''" by (simp add: is_space_def)
  have "split_go [] (join_sp (w # v # ws)) = split_go w (CHR '' '' # join_sp (v # ws))"
    using 3 split_go_word [of w "[]" "CHR '' '' # join_sp (v # ws)"] by (simp add: clean_def)
  also have "\<dots> = w # split_go [] (join_sp (v # ws))" using 3 sp by (simp add: clean_def)
  finally show ?case using 3 by simp
qed

lemma words_clean: "\<forall>w \<in> set words. clean w"
  by (simp add: words_def clean_def is_space_def)

lemma words_distinct: "distinct words"
  by (simp add: words_def)

lemma words_length: "length words = 60"
  by (simp add: words_def)

lemma random_sample_words:
  "length (random_sample words 24 draws) = 24
   \<and> distinct (random_sample words 24 draws)
   \<and> set (random_sample words 24 draws) \<subseteq> set words"
  using sample_loop_sound [of 60 words 0 24 draws] words_distinct
  by (simp add: random_sample_def words_length)

lemma split_generate: "split_ws (generate_seed_phrase draws) = random_sample words 24 draws"
  unfolding generate_seed_phrase_def
  using random_sample_words [of draws] words_clean by (intro split_join) blast

lemma split_seed_phrase_generate:
  "split_seed_phrase (generate_seed_phrase draws)
   = (join_sp (take 12 (random_sample words 24 draws)),
      join_sp (drop 12 (random_sample words 24 draws)))"
  by (simp add: split_seed_phrase_def split_generate Let_def)

text \<open>
  C10: whatever the generator draws, the issued phrase has 24 different words of the
  dictionary; the first half has 12 words, the second half has 12 words, and the words of
  the first half followed by those of the second are the words of the phrase, in order
  (so no word occurs twice, within a half or across the halves).
\<close>

theorem seed_phrase_issuance:
  "length (split_ws (generate_seed_phrase draws)) = 24
   \<and> distinct (split_ws (generate_seed_phrase draws))
   \<and> set (split_ws (generate_seed_phrase draws)) \<subseteq> set words
   \<and> length (split_ws (fst (split_seed_phrase (generate_seed_phrase draws)))) = 12
   \<and> length (split_ws (snd (split_seed_phrase (generate_seed_phrase draws)))) = 12
   \<and> split_ws (fst (split_seed_phrase (generate_seed_phrase draws)))
       @ split_ws (snd (split_seed_phrase (generate_seed_phrase draws)))
     = split_ws (generate_seed_phrase draws)"
proof -
  let ?ws = "random_sample words 24 draws"
  note rs = random_sample_words [of draws]
  have c1: "\<forall>w \<in> set (take 12 ?ws). clean w"
    using rs words_clean by (meson in_set_takeD subsetD)
  have c2: "\<forall>w \<in> set (drop 12 ?ws). clean w"
    using rs words_clean by (meson in_set_dropD subsetD)
  have h1: "split_ws (fst (split_seed_phrase (generate_seed_phrase draws))) = take 12 ?ws"
    using split_join [OF c1] by (simp add: split_seed_phrase_generate)
  have h2: "split_ws (snd (split_seed_phrase (generate_seed_phrase draws))) = drop 12 ?ws"
    using split_join [OF c2] by (simp add: split_seed_phrase_generate)
  show ?thesis
    unfolding h1 h2 split_generate using rs by simp
qed

section \<open>Guards of the transitions\<close>

text \<open>
  C8: on an existing deal \<open>simulate_deposit_logic\<close> succeeds exactly when the status is
  NEW, and then the deal is in PENDING_DEPOSIT; in any other status it fails with the
  illegal-transition message, hands no task to the event loop and returns the store as it
  was, so no field of any deal has changed.
\<close>

theorem initiate_deposit_iff_new:
  assumes "get_deal deal_id c = Some d"
  shows "(succeeded (fst (simulate_deposit_logic caller draws deal_id c)) \<longleftrightarrow> d_status d = NEW)
       \<and> (d_status d = NEW \<longrightarrow>
            map_option d_status
              (get_deal deal_id (fst (snd (simulate_deposit_logic caller draws deal_id c))))
            = Some PENDING_DEPOSIT)
       \<and> (d_status d \<noteq> NEW \<longrightarrow>
            simulate_deposit_logic caller draws deal_id c = (Failed IllegalTransition, c, []))"
  using assms
  by (auto simp: simulate_deposit_logic_def succeeded_def store_defs
      split: option.splits prod.splits)

theorem initiate_deposit_iff_new_witness:
  "get_deal 1 (laptop_db FUNDED 100) = Some (laptop_deal FUNDED 100)
   \<and> d_status (laptop_deal FUNDED 100) \<noteq> NEW
   \<and> \<not> succeeded (fst (simulate_deposit_logic alice (\<lambda>i. 0) 1 (laptop_db FUNDED 100)))
   \<and> simulate_deposit_logic alice (\<lambda>i. 0) 1 (laptop_db FUNDED 100)
       = (Failed IllegalTransition, laptop_db FUNDED 100, [])
   \<and> get_deal 1 (laptop_db NEW 0) = Some (laptop_deal NEW 0)
   \<and> succeeded (fst (simulate_deposit_logic alice (\<lambda>i. 0) 1 (laptop_db NEW 0)))
   \<and> map_option d_status
        (get_deal 1 (fst (snd (simulate_deposit_logic alice (\<lambda>i. 0) 1 (laptop_db NEW 0)))))
      = Some PENDING_DEPOSIT"
  using initiate_deposit_iff_new [OF laptop_get_deal, of alice "\<lambda>i. 0" FUNDED 100]
    initiate_deposit_iff_new [OF laptop_get_deal, of alice "\<lambda>i. 0" NEW 0]
  by (simp add: succeeded_def)

text \<open>
  C9: a caller outside the administrator set gets "Admin only." from \<open>resolve_cmd\<close> and
  from \<open>cancel_cmd\<close>, and the store is returned as it was.
\<close>

theorem admin_gate_rejects_others:
  assumes "uid caller \<notin> admins"
  shows "resolve_cmd admins caller deal_id winner c = (Failed Unauthorized, c)
       \<and> cancel_cmd admins caller deal_id c = (Failed Unauthorized, c)"
  using assms by (simp add: resolve_cmd_def cancel_cmd_def)

theorem admin_gate_rejects_others_witness:
  "uid stranger \<notin> ADMIN_IDS
   \<and> resolve_cmd ADMIN_IDS stranger 1 ''buyer'' (laptop_db NEW 0)
       = (Failed Unauthorized, laptop_db NEW 0)
   \<and> cancel_cmd ADMIN_IDS stranger 1 (laptop_db NEW 0) = (Failed Unauthorized, laptop_db NEW 0)
   \<and> map_option d_status
        (get_deal 1 (snd (cancel_cmd ADMIN_IDS stranger 1 (laptop_db NEW 0)))) = Some NEW"
proof -
  have h: "uid stranger \<notin> ADMIN_IDS" by (simp add: ADMIN_IDS_def stranger_def)
  show ?thesis
    using h admin_gate_rejects_others [OF h, of 1 "''buyer''" "laptop_db NEW 0"]
    by simp
qed

text \<open>
  On a deal in a terminal status the deposit, delivery, release and dispute operations
  fail with the illegal-transition message and \<open>resolve_cmd\<close> fails too (with that
  message for an administrator, with "Admin only." for anyone else), all of them
  returning the store as it was.
\<close>

lemma terminal_deal_rejected:
  assumes "get_deal deal_id c = Some d"
    and "d_status d \<in> {RELEASED, RESOLVED, CANCELED}"
  shows "simulate_deposit_logic caller draws deal_id c = (Failed IllegalTransition, c, [])
       \<and> mark_delivered caller deal_id c = (Failed IllegalTransition, c)
       \<and> release_to_seller caller deal_id c = (Failed IllegalTransition, c)
       \<and> open_dispute caller deal_id c = (Failed IllegalTransition, c)
       \<and> resolve_cmd admins caller deal_id winner c
           = (Failed (if uid caller \<in> admins then IllegalTransition else Unauthorized), c)"
  using assms
  by (auto simp: simulate_deposit_logic_def mark_delivered_def release_to_seller_def
      open_dispute_def resolve_cmd_def store_defs split: option.splits)

text \<open>
  C1 does not hold of the code. \<open>cancel_cmd\<close> tests the caller and that the deal
  exists, never the status: a deal that went through deposit, verification, delivery and
  release is RELEASED with balance 0, and an administrator's cancel is then applied, not
  rejected, leaving it CANCELED. The deposit verifier tests nothing either: coming due
  with a successful check on the CANCELED laptop deal it leaves the deal FUNDED with
  balance 100.
\<close>

theorem terminal_deal_leaves_its_status:
  "map_option (\<lambda>d. (d_status d, d_escrow_balance d))
     (get_deal 1 (store (run ADMIN_IDS
        [new_laptop_deal 100, Deposit alice (\<lambda>i. 1) 1, Verify 0 0, Delivered alice 1,
         Release alice 1] fresh_world)))
   = Some (RELEASED, 0)
   \<and> uid admin \<in> ADMIN_IDS
   \<and> succeeded (fst (cancel_cmd ADMIN_IDS admin 1 (store (run ADMIN_IDS
        [new_laptop_deal 100, Deposit alice (\<lambda>i. 1) 1, Verify 0 0, Delivered alice 1,
         Release alice 1] fresh_world))))
   \<and> map_option (\<lambda>d. (d_status d, d_escrow_balance d))
     (get_deal 1 (store (run ADMIN_IDS
        [new_laptop_deal 100, Deposit alice (\<lambda>i. 1) 1, Verify 0 0, Delivered alice 1,
         Release alice 1, Cancel admin 1] fresh_world)))
   = Some (CANCELED, 0)
   \<and> map_option (\<lambda>d. (d_status d, d_escrow_balance d)) (get_deal 1 (laptop_db CANCELED 0))
   = Some (CANCELED, 0)
   \<and> map_option (\<lambda>d. (d_status d, d_escrow_balance d))
     (get_deal 1 (snd (schedule_deposit_verification 1 100 0 (laptop_db CANCELED 0))))
   = Some (FUNDED, 100)"
  by code_simp

section \<open>The caller of a lifecycle operation\<close>

text \<open>
  C3: the deposit, delivery, release and dispute operations return the same reply and the
  same store for any two callers; on an existing deal whether they succeed is settled by
  the deal's status alone (NEW for the deposit, FUNDED or DISPUTED for delivery, DELIVERED
  for release, FUNDED or DELIVERED for a dispute).
\<close>

theorem lifecycle_ops_ignore_caller:
  "simulate_deposit_logic u draws deal_id c = simulate_deposit_logic v draws deal_id c
   \<and> mark_delivered u deal_id c = mark_delivered v deal_id c
   \<and> release_to_seller u deal_id c = release_to_seller v deal_id c
   \<and> open_dispute u deal_id c = open_dispute v deal_id c
   \<and> (get_deal deal_id c = Some d \<longrightarrow>
        (succeeded (fst (simulate_deposit_logic u draws deal_id c)) \<longleftrightarrow> d_status d = NEW)
      \<and> (succeeded (fst (mark_delivered u deal_id c)) \<longleftrightarrow> d_status d \<in> {FUNDED, DISPUTED})
      \<and> (succeeded (fst (release_to_seller u deal_id c)) \<longleftrightarrow> d_status d = DELIVERED)
      \<and> (succeeded (fst (open_dispute u deal_id c)) \<longleftrightarrow> d_status d \<in> {FUNDED, DELIVERED}))"
proof -
  have eqs: "simulate_deposit_logic u draws deal_id c = simulate_deposit_logic v draws deal_id c"
    "mark_delivered u deal_id c = mark_delivered v deal_id c"
    "release_to_seller u deal_id c = release_to_seller v deal_id c"
    "open_dispute u deal_id c = open_dispute v deal_id c"
    by (simp_all add: simulate_deposit_logic_def mark_delivered_def release_to_seller_def
        open_dispute_def)
  have g1: "get_deal deal_id c = Some d \<Longrightarrow>
      (succeeded (fst (simulate_deposit_logic u draws deal_id c)) \<longleftrightarrow> d_status d = NEW)"
    by (auto simp: simulate_deposit_logic_def succeeded_def store_defs
        split: option.splits prod.splits)
  have g2: "get_deal deal_id c = Some d \<Longrightarrow>
      (succeeded (fst (mark_delivered u deal_id c)) \<longleftrightarrow> d_status d \<in> {FUNDED, DISPUTED})"
    by (auto simp: mark_delivered_def succeeded_def store_defs split: option.splits)
  have g3: "get_deal deal_id c = Some d \<Longrightarrow>
      (succeeded (fst (release_to_seller u deal_id c)) \<longleftrightarrow> d_status d = DELIVERED)"
    by (auto simp: release_to_seller_def succeeded_def store_defs split: option.splits)
  have g4: "get_deal deal_id c = Some d \<Longrightarrow>
      (succeeded (fst (open_dispute u deal_id c)) \<longleftrightarrow> d_status d \<in> {FUNDED, DELIVERED})"
    by (auto simp: open_dispute_def succeeded_def store_defs split: option.splits)
  show ?thesis using eqs g1 g2 g3 g4 by blast
qed

theorem lifecycle_ops_ignore_caller_witness:
  "get_deal 1 (laptop_db DELIVERED 100) = Some (laptop_deal DELIVERED 100)
   \<and> uid stranger \<noteq> d_buyer_id (laptop_deal DELIVERED 100)
   \<and> uid stranger \<noteq> d_seller_id (laptop_deal DELIVERED 100)
   \<and> username stranger = None
   \<and> release_to_seller stranger 1 (laptop_db DELIVERED 100)
       = release_to_seller alice 1 (laptop_db DELIVERED 100)
   \<and> succeeded (fst (release_to_seller stranger 1 (laptop_db DELIVERED 100)))
   \<and> fst (release_to_seller stranger 1 (laptop_db DELIVERED 100))
       = Summary (laptop_deal RELEASED 0)"
proof -
  have r: "fst (release_to_seller stranger 1 (laptop_db DELIVERED 100))
           = Summary (laptop_deal RELEASED 0)"
    by (simp add: release_to_seller_def store_defs laptop_db_def laptop_row_def laptop_deal_def)
  show ?thesis
    using r lifecycle_ops_ignore_caller
      [of stranger "\<lambda>i. 0" 1 "laptop_db DELIVERED 100" alice "laptop_deal DELIVERED 100"]
    by (simp add: stranger_def laptop_deal_def)
qed

section \<open>Rows are kept while the process runs\<close>

lemma sql_update_dom [simp]: "dom (rows (sql_update deal_id f c)) = dom (rows c)"
  by (auto simp: sql_update_def split: option.splits)

lemma sql_update_seq [simp]: "seq (sql_update deal_id f c) = seq c"
  by (simp add: sql_update_def split: option.splits)

lemma sql_insert_dom [simp]: "dom (rows (sql_insert row c)) = insert (seq c + 1) (dom (rows c))"
  by (simp add: sql_insert_def)

lemma sql_insert_seq [simp]: "seq (sql_insert row c) = seq c + 1"
  by (simp add: sql_insert_def)

lemma dom_insert_deal:
  "dom (rows (snd (insert_deal b_id b_un s_id s_un amt cur descr now draws c)))
   = insert (seq c + 1) (dom (rows c))"
  by (simp add: insert_deal_def Let_def update_deal_seed_phrases_def split: prod.splits)

lemma dom_simulate_deposit_logic:
  "dom (rows (fst (snd (simulate_deposit_logic caller draws deal_id c)))) = dom (rows c)"
  by (simp add: simulate_deposit_logic_def update_deal_seed_phrases_def update_deal_status_def
      split: option.splits prod.splits)

lemma dom_mark_delivered: "dom (rows (snd (mark_delivered caller deal_id c))) = dom (rows c)"
  by (simp add: mark_delivered_def update_deal_status_def show_summary_def split: option.splits)

lemma dom_release_to_seller: "dom (rows (snd (release_to_seller caller deal_id c))) = dom (rows c)"
  by (simp add: release_to_seller_def update_deal_status_def update_deal_balance_def
      show_summary_def split: option.splits)

lemma dom_open_dispute: "dom (rows (snd (open_dispute caller deal_id c))) = dom (rows c)"
  by (simp add: open_dispute_def update_deal_status_def show_summary_def split: option.splits)

lemma dom_resolve_cmd:
  "dom (rows (snd (resolve_cmd admins caller deal_id winner c))) = dom (rows c)"
  by (simp add: resolve_cmd_def update_deal_status_def update_deal_balance_def
      show_summary_def split: option.splits)

lemma dom_cancel_cmd: "dom (rows (snd (cancel_cmd admins caller deal_id c))) = dom (rows c)"
  by (simp add: cancel_cmd_def update_deal_status_def update_deal_balance_def
      show_summary_def split: option.splits)

lemma dom_show_seed_phrase:
  "dom (rows (snd (show_seed_phrase caller draws deal_id c))) = dom (rows c)"
  by (simp add: show_seed_phrase_def ensure_seed_phrases_exist_def update_deal_seed_phrases_def
      Let_def split: option.splits prod.splits sum.splits)

lemma dom_schedule_deposit_verification:
  "dom (rows (snd (schedule_deposit_verification deal_id expected r c))) = dom (rows c)"
  by (simp add: schedule_deposit_verification_def verify_btc_deposit_def
      update_deal_status_def update_deal_balance_def split: prod.splits sum.splits)

lemmas dom_handlers = dom_insert_deal dom_simulate_deposit_logic dom_mark_delivered
  dom_release_to_seller dom_open_dispute dom_resolve_cmd dom_cancel_cmd dom_show_seed_phrase
  dom_schedule_deposit_verification

lemma store_step_Deposit:
  "store (step admins (Deposit caller draws deal_id) w)
   = fst (snd (simulate_deposit_logic caller draws deal_id (store w)))"
  by (simp split: prod.splits)

lemma store_step_Verify:
  "store (step admins (Verify k r) w)
   = (if k < length (tasks w)
      then snd (schedule_deposit_verification (fst (tasks w ! k)) (snd (tasks w ! k)) r (store w))
      else store w)"
  by (simp split: prod.splits)

lemma step_keeps_rows: "dom (rows (store w)) \<subseteq> dom (rows (store (step admins cmd w)))"
proof (cases cmd)
  case (Deposit caller draws deal_id)
  then show ?thesis by (simp only: store_step_Deposit dom_handlers)
next
  case (Verify k r)
  then show ?thesis by (simp only: store_step_Verify dom_handlers split: if_splits) simp
qed (auto simp: dom_handlers)

text \<open>
  C7, as the code has it: while the process runs, no command removes a row. After any
  sequence of commands every key that was in the store is still there (creation adds
  keys; cancel and resolve rewrite the status of the row they find).
\<close>

theorem running_system_keeps_rows:
  "dom (rows (store w)) \<subseteq> dom (rows (store (run admins cmds w)))"
proof (induction cmds arbitrary: w)
  case Nil
  show ?case by simp
next
  case (Cons cmd cmds)
  have "dom (rows (store w)) \<subseteq> dom (rows (store (step admins cmd w)))"
    by (rule step_keeps_rows)
  also have "\<dots> \<subseteq> dom (rows (store (run admins cmds (step admins cmd w))))"
    by (rule Cons.IH)
  finally show ?case by simp
qed

lemma fold_sql_insert_seq: "seq c \<le> seq (fold sql_insert xs c)"
proof (induction xs arbitrary: c)
  case Nil
  show ?case by simp
next
  case (Cons x xs)
  have "seq c \<le> seq (sql_insert x c)" by simp
  also have "\<dots> \<le> seq (fold sql_insert xs (sql_insert x c))" by (rule Cons.IH)
  finally show ?case by simp
qed

lemma fold_sql_insert_old:
  "i \<le> seq c \<Longrightarrow> rows (fold sql_insert xs c) i = rows c i"
  by (induction xs arbitrary: c) (auto simp: sql_insert_def)

lemma init_db_deletes: "i \<le> seq c \<Longrightarrow> rows (init_db sample_deals c) i = None"
  by (simp add: init_db_def add_sample_deals_def fold_sql_insert_old)

text \<open>
  C7 as the specification words it fails at every start of the process: \<open>init_db\<close>
  clears the table before it loads the 256 samples under new keys, so the deal with key 1
  is gone after a restart.
\<close>

theorem startup_deletes_counterexample:
  "get_deal 1 (laptop_db RELEASED 0) = Some (laptop_deal RELEASED 0)
   \<and> get_deal 1 (store (startup (replicate 256 (laptop_row FUNDED 100)) (laptop_db RELEASED 0))) = None"
  using init_db_deletes [of 1 "laptop_db RELEASED 0" "replicate 256 (laptop_row FUNDED 100)"]
  by (simp add: startup_def get_deal_def laptop_db_def laptop_row_def laptop_deal_def)

section \<open>Invariants of the running system\<close>

lemma keeps_refl [simp]: "keeps b row row"
  by (simp add: keeps_def)

lemma row_mark_delivered:
  "rows c i = Some row \<Longrightarrow>
   \<exists>row'. rows (snd (mark_delivered caller deal_id c)) i = Some row' \<and> keeps False row row'"
  by (auto simp: mark_delivered_def store_defs keeps_def split: option.splits)

lemma row_release_to_seller:
  "rows c i = Some row \<Longrightarrow>
   \<exists>row'. rows (snd (release_to_seller caller deal_id c)) i = Some row' \<and> keeps False row row'"
  by (auto simp: release_to_seller_def store_defs keeps_def split: option.splits)

lemma row_open_dispute:
  "rows c i = Some row \<Longrightarrow>
   \<exists>row'. rows (snd (open_dispute caller deal_id c)) i = Some row' \<and> keeps False row row'"
  by (auto simp: open_dispute_def store_defs keeps_def split: option.splits)

lemma row_resolve_cmd:
  "rows c i = Some row \<Longrightarrow>
   \<exists>row'. rows (snd (resolve_cmd admins caller deal_id winner c)) i = Some row'
          \<and> keeps False row row'"
  by (auto simp: resolve_cmd_def store_defs keeps_def split: option.splits)

lemma row_cancel_cmd:
  "rows c i = Some row \<Longrightarrow>
   \<exists>row'. rows (snd (cancel_cmd admins caller deal_id c)) i = Some row' \<and> keeps False row row'"
  by (auto simp: cancel_cmd_def store_defs keeps_def split: option.splits)

lemma row_schedule_deposit_verification:
  "rows c i = Some row \<Longrightarrow>
   \<exists>row'. rows (snd (schedule_deposit_verification deal_id expected r c)) i = Some row'
          \<and> keeps False row row'"
  by (auto simp: schedule_deposit_verification_def verify_btc_deposit_def store_defs keeps_def
      split: option.splits)

lemma row_simulate_deposit_logic:
  "rows c i = Some row \<Longrightarrow>
   \<exists>row'. rows (fst (snd (simulate_deposit_logic caller draws deal_id c))) i = Some row'
          \<and> keeps (i = deal_id \<and> status row = NEW) row row'"
  by (auto simp: simulate_deposit_logic_def store_defs keeps_def split: option.splits prod.splits)

lemma row_show_seed_phrase:
  "rows c i = Some row \<Longrightarrow>
   \<exists>row'. rows (snd (show_seed_phrase caller draws deal_id c)) i = Some row'
          \<and> keeps (i = deal_id \<and> (falsy (seed_phrase row) \<or> falsy (seller_seed_phrase row)))
               row row'"
  by (auto simp: show_seed_phrase_def ensure_seed_phrases_exist_def safe_get_seed_phrases_def
      store_defs keeps_def Let_def split: option.splits prod.splits)

lemma keys_below_seqD: "keys_below_seq c \<Longrightarrow> rows c i = Some row \<Longrightarrow> i \<le> seq c"
  by (auto simp: keys_below_seq_def)

lemma row_insert_deal:
  assumes "keys_below_seq c" and "rows c i = Some row"
  shows "rows (snd (insert_deal b_id b_un s_id s_un amt cur descr now draws c)) i = Some row"
proof -
  have "i \<noteq> seq c + 1" using keys_below_seqD [OF assms] by simp
  then show ?thesis
    using assms(2)
    by (simp add: insert_deal_def sql_insert_def store_defs Let_def split: prod.splits)
qed

lemma step_row:
  assumes "keys_below_seq (store w)" and "rows (store w) i = Some row"
  shows "\<exists>row'. rows (store (step admins cmd w)) i = Some row' \<and> keeps (reseeds cmd i row) row row'"
proof (cases cmd)
  case (NewDeal b_id b_un s_id s_un amt cur descr now draws)
  then show ?thesis using row_insert_deal [OF assms] by simp
next
  case (Deposit caller draws deal_id)
  then show ?thesis
    using row_simulate_deposit_logic [OF assms(2), of caller draws deal_id]
    by (simp only: store_step_Deposit reseeds.simps)
next
  case (Delivered caller deal_id)
  then show ?thesis using row_mark_delivered [OF assms(2)] by simp
next
  case (Release caller deal_id)
  then show ?thesis using row_release_to_seller [OF assms(2)] by simp
next
  case (Dispute caller deal_id)
  then show ?thesis using row_open_dispute [OF assms(2)] by simp
next
  case (Resolve caller deal_id winner)
  then show ?thesis using row_resolve_cmd [OF assms(2)] by simp
next
  case (Cancel caller deal_id)
  then show ?thesis using row_cancel_cmd [OF assms(2)] by simp
next
  case (Seed caller draws deal_id)
  then show ?thesis using row_show_seed_phrase [OF assms(2), of caller draws deal_id] by simp
next
  case (Verify k r)
  then show ?thesis
    using row_schedule_deposit_verification [OF assms(2)] assms(2)
    by (simp only: store_step_Verify reseeds.simps split: if_splits) auto
qed


lemma seq_insert_deal:
  "seq (snd (insert_deal b_id b_un s_id s_un amt cur descr now draws c)) = seq c + 1"
  by (simp add: insert_deal_def Let_def update_deal_seed_phrases_def split: prod.splits)

lemma seq_simulate_deposit_logic:
  "seq (fst (snd (simulate_deposit_logic caller draws deal_id c))) = seq c"
  by (simp add: simulate_deposit_logic_def update_deal_seed_phrases_def update_deal_status_def
      split: option.splits prod.splits)

lemma seq_mark_delivered: "seq (snd (mark_delivered caller deal_id c)) = seq c"
  by (simp add: mark_delivered_def update_deal_status_def show_summary_def split: option.splits)

lemma seq_release_to_seller: "seq (snd (release_to_seller caller deal_id c)) = seq c"
  by (simp add: release_to_seller_def update_deal_status_def update_deal_balance_def
      show_summary_def split: option.splits)

lemma seq_open_dispute: "seq (snd (open_dispute caller deal_id c)) = seq c"
  by (simp add: open_dispute_def update_deal_status_def show_summary_def split: option.splits)

lemma seq_resolve_cmd: "seq (snd (resolve_cmd admins caller deal_id winner c)) = seq c"
  by (simp add: resolve_cmd_def update_deal_status_def update_deal_balance_def
      show_summary_def split: option.splits)

lemma seq_cancel_cmd: "seq (snd (cancel_cmd admins caller deal_id c)) = seq c"
  by (simp add: cancel_cmd_def update_deal_status_def update_deal_balance_def
      show_summary_def split: option.splits)

lemma seq_show_seed_phrase: "seq (snd (show_seed_phrase caller draws deal_id c)) = seq c"
  by (simp add: show_seed_phrase_def ensure_seed_phrases_exist_def update_deal_seed_phrases_def
      Let_def split: option.splits prod.splits sum.splits)

lemma seq_schedule_deposit_verification:
  "seq (snd (schedule_deposit_verification deal_id expected r c)) = seq c"
  by (simp add: schedule_deposit_verification_def verify_btc_deposit_def
      update_deal_status_def update_deal_balance_def split: prod.splits sum.splits)

lemmas seq_handlers = seq_insert_deal seq_simulate_deposit_logic seq_mark_delivered
  seq_release_to_seller seq_open_dispute seq_resolve_cmd seq_cancel_cmd seq_show_seed_phrase
  seq_schedule_deposit_verification

text \<open>A step leaves the counter or, creating a deal, moves it to the new key.\<close>

lemma step_seq_dom:
  "(seq (store (step admins cmd w)) = seq (store w)
      \<and> dom (rows (store (step admins cmd w))) = dom (rows (store w)))
   \<or> (seq (store (step admins cmd w)) = seq (store w) + 1
      \<and> dom (rows (store (step admins cmd w))) = insert (seq (store w) + 1) (dom (rows (store w))))"
proof (cases cmd)
  case (Deposit caller draws deal_id)
  then show ?thesis by (simp only: store_step_Deposit dom_handlers seq_handlers) simp
next
  case (Verify k r)
  then show ?thesis
    by (simp only: store_step_Verify dom_handlers seq_handlers split: if_splits) simp
qed (simp_all add: dom_handlers seq_handlers)

lemma step_seq_mono: "seq (store w) \<le> seq (store (step admins cmd w))"
  using step_seq_dom [of admins cmd w] by auto

lemma keys_below_seq_iff: "keys_below_seq c \<longleftrightarrow> dom (rows c) \<subseteq> {..seq c}"
  by (auto simp: keys_below_seq_def)

lemma step_keys_below_seq:
  assumes "keys_below_seq (store w)"
  shows "keys_below_seq (store (step admins cmd w))"
proof -
  have k: "dom (rows (store w)) \<subseteq> {..seq (store w)}"
    using assms by (simp add: keys_below_seq_iff)
  from step_seq_dom [of admins cmd w]
  show ?thesis
  proof (elim disjE conjE)
    assume "seq (store (step admins cmd w)) = seq (store w)"
      and "dom (rows (store (step admins cmd w))) = dom (rows (store w))"
    then show ?thesis using k by (simp add: keys_below_seq_iff)
  next
    assume s: "seq (store (step admins cmd w)) = seq (store w) + 1"
      and d: "dom (rows (store (step admins cmd w)))
              = insert (seq (store w) + 1) (dom (rows (store w)))"
    have "{..seq (store w)} \<subseteq> {..seq (store w) + 1}" by simp
    with k have "dom (rows (store w)) \<subseteq> {..seq (store w) + 1}" by (rule order_trans)
    then show ?thesis by (simp add: keys_below_seq_iff s d)
  qed
qed

lemma step_old_key:
  assumes "i \<le> seq (store w)" and "rows (store (step admins cmd w)) i = Some row'"
  shows "i \<in> dom (rows (store w))"
proof -
  have i: "i \<in> dom (rows (store (step admins cmd w)))" using assms(2) by (rule domI)
  from step_seq_dom [of admins cmd w] show ?thesis
  proof (elim disjE conjE)
    assume "dom (rows (store (step admins cmd w))) = dom (rows (store w))"
    then show ?thesis using i by simp
  next
    assume "dom (rows (store (step admins cmd w)))
            = insert (seq (store w) + 1) (dom (rows (store w)))"
    then have "i \<in> insert (seq (store w) + 1) (dom (rows (store w)))" using i by simp
    then show ?thesis using assms(1) by simp
  qed
qed

lemma run_keys_below_seq:
  "keys_below_seq (store w) \<Longrightarrow> keys_below_seq (store (run admins cmds w))"
  by (induction cmds arbitrary: w) (simp_all add: step_keys_below_seq)

text \<open>The tasks after a step: those before it, and for a deposit the deal with its amount.\<close>

lemma tasks_simulate_deposit_logic:
  "t \<in> set (snd (snd (simulate_deposit_logic caller draws deal_id c)))
   \<Longrightarrow> \<exists>row. rows c (fst t) = Some row \<and> snd t = amount row"
  by (auto simp: simulate_deposit_logic_def store_defs split: option.splits prod.splits if_splits)

lemma step_tasks:
  assumes "t \<in> set (tasks (step admins cmd w))"
  shows "t \<in> set (tasks w) \<or> (\<exists>row. rows (store w) (fst t) = Some row \<and> snd t = amount row)"
proof (cases cmd)
  case (Deposit caller draws deal_id)
  then have "t \<in> set (tasks w)
      \<or> t \<in> set (snd (snd (simulate_deposit_logic caller draws deal_id (store w))))"
    using assms by (auto split: prod.splits)
  then show ?thesis using tasks_simulate_deposit_logic by blast
next
  case (Verify k r)
  then show ?thesis
    using assms by (auto split: prod.splits if_splits dest: in_set_takeD in_set_dropD)
qed (use assms in auto)

lemma step_tasks_agree:
  assumes k: "keys_below_seq (store w)" and a: "tasks_agree w"
  shows "tasks_agree (step admins cmd w)"
  unfolding tasks_agree_def
proof (intro ballI conjI allI impI)
  fix t assume t: "t \<in> set (tasks (step admins cmd w))"
  from step_tasks [OF t]
  have old: "fst t \<le> seq (store w)
      \<and> (\<forall>row. rows (store w) (fst t) = Some row \<longrightarrow> amount row = snd t)"
  proof
    assume "t \<in> set (tasks w)"
    then show ?thesis using a by (auto simp: tasks_agree_def)
  next
    assume "\<exists>row. rows (store w) (fst t) = Some row \<and> snd t = amount row"
    then show ?thesis using keys_below_seqD [OF k] by auto
  qed
  show "fst t \<le> seq (store (step admins cmd w))"
    using old step_seq_mono [of w admins cmd] by linarith
  fix row' assume r': "rows (store (step admins cmd w)) (fst t) = Some row'"
  have "fst t \<in> dom (rows (store w))"
    using step_old_key [OF _ r'] old by simp
  then obtain row where row: "rows (store w) (fst t) = Some row" by auto
  from step_row [OF k row, of admins cmd] r' have "amount row' = amount row"
    by (auto simp: keeps_def)
  then show "amount row' = snd t" using old row by simp
qed

lemma run_tasks_agree:
  "keys_below_seq (store w) \<Longrightarrow> tasks_agree w \<Longrightarrow> tasks_agree (run admins cmds w)"
  by (induction cmds arbitrary: w) (simp_all add: step_keys_below_seq step_tasks_agree)

lemma sql_insert_keys: "keys_below_seq c \<Longrightarrow> keys_below_seq (sql_insert row c)"
proof -
  assume "keys_below_seq c"
  then have "dom (rows c) \<subseteq> {..seq c}" by (simp add: keys_below_seq_iff)
  moreover have "{..seq c} \<subseteq> {..seq c + 1}" by simp
  ultimately have "dom (rows c) \<subseteq> {..seq c + 1}" by (rule order_trans)
  then show ?thesis by (simp add: keys_below_seq_iff)
qed

lemma fold_sql_insert_keys:
  "keys_below_seq c \<Longrightarrow> keys_below_seq (fold sql_insert xs c)"
  by (induction xs arbitrary: c) (simp_all add: sql_insert_keys)

lemma startup_keys_below_seq: "keys_below_seq (store (startup sample_deals c))"
proof -
  have "keys_below_seq (c\<lparr>rows := Map.empty\<rparr>)" by (simp add: keys_below_seq_def)
  then show ?thesis
    by (simp add: startup_def init_db_def add_sample_deals_def fold_sql_insert_keys)
qed

lemma startup_tasks_agree: "tasks_agree (startup sample_deals c)"
  by (simp add: startup_def tasks_agree_def)


section \<open>The secret halves over time\<close>

lemma not_reseeds:
  assumes "\<not> falsy (seed_phrase row)" and "\<not> falsy (seller_seed_phrase row)"
    and "status row \<noteq> NEW \<or> \<not> deposits_on i cmd"
  shows "\<not> reseeds cmd i row"
  using assms by (cases cmd) auto

lemma run_seeds:
  assumes "keys_below_seq (store w)" and "rows (store w) i = Some row"
    and "\<not> falsy (seed_phrase row)" and "\<not> falsy (seller_seed_phrase row)"
    and "status row \<noteq> NEW \<or> \<not> list_ex (deposits_on i) cmds"
  shows "\<exists>row'. rows (store (run admins cmds w)) i = Some row'
           \<and> seed_phrase row' = seed_phrase row
           \<and> seller_seed_phrase row' = seller_seed_phrase row"
  using assms
proof (induction cmds arbitrary: w row)
  case Nil
  then show ?case by simp
next
  case (Cons cmd cmds)
  have nr: "\<not> reseeds cmd i row"
    using Cons.prems(3,4,5) by (intro not_reseeds) auto
  from step_row [OF Cons.prems(1,2), of admins cmd] nr
  obtain row1 where r1: "rows (store (step admins cmd w)) i = Some row1"
    and s1: "seed_phrase row1 = seed_phrase row"
      "seller_seed_phrase row1 = seller_seed_phrase row"
    and st: "status row \<noteq> NEW \<longrightarrow> status row1 \<noteq> NEW"
    by (auto simp: keeps_def)
  have d: "status row1 \<noteq> NEW \<or> \<not> list_ex (deposits_on i) cmds"
    using Cons.prems(5) st by auto
  from Cons.IH [OF step_keys_below_seq [OF Cons.prems(1)] r1 _ _ d]
  show ?case using s1 Cons.prems(3,4) by simp
qed

text \<open>
  C4, as the code has it. In a running system, take a deal whose two halves are stored
  (neither missing nor empty). If the deal has left NEW, or if the commands that follow
  contain no deposit on it, then after those commands reading the halves back gives the
  same two halves. A deposit on the deal while it is NEW is what replaces them: it
  stores the halves of a freshly generated phrase.
\<close>

theorem seed_halves_stable_without_reseeding:
  assumes "w = run admins before (startup sample_deals c0)"
    and "rows (store w) deal_id = Some row"
    and "\<not> falsy (seed_phrase row)" and "\<not> falsy (seller_seed_phrase row)"
    and "status row \<noteq> NEW \<or> \<not> list_ex (deposits_on deal_id) cmds"
  shows "safe_get_seed_phrases deal_id (store (run admins cmds w))
         = safe_get_seed_phrases deal_id (store w)
       \<and> (status row = NEW \<longrightarrow>
            safe_get_seed_phrases deal_id (store (step admins (Deposit caller draws deal_id) w))
            = (Some (fst (split_seed_phrase (generate_seed_phrase draws))),
               Some (snd (split_seed_phrase (generate_seed_phrase draws)))))"
proof -
  have k: "keys_below_seq (store w)"
    unfolding assms(1) by (intro run_keys_below_seq startup_keys_below_seq)
  from run_seeds [OF k assms(2,3,4,5), of admins]
  have "safe_get_seed_phrases deal_id (store (run admins cmds w))
        = safe_get_seed_phrases deal_id (store w)"
    using assms(2) by (auto simp: safe_get_seed_phrases_def)
  moreover have "status row = NEW \<longrightarrow>
      safe_get_seed_phrases deal_id (store (step admins (Deposit caller draws deal_id) w))
      = (Some (fst (split_seed_phrase (generate_seed_phrase draws))),
         Some (snd (split_seed_phrase (generate_seed_phrase draws))))"
    using assms(2)
    by (simp only: store_step_Deposit)
      (simp add: simulate_deposit_logic_def safe_get_seed_phrases_def store_defs
        split: prod.splits)
  ultimately show ?thesis by simp
qed

theorem seed_halves_stable_without_reseeding_witness:
  "rows (store laptop_pending_world) 1 = Some laptop_pending_row
   \<and> \<not> falsy (seed_phrase laptop_pending_row)
   \<and> \<not> falsy (seller_seed_phrase laptop_pending_row)
   \<and> status laptop_pending_row \<noteq> NEW
   \<and> safe_get_seed_phrases 1 (store laptop_pending_world)
       = (seed_phrase laptop_pending_row, seller_seed_phrase laptop_pending_row)
   \<and> safe_get_seed_phrases 1 (store (run ADMIN_IDS
         [Seed alice (\<lambda>i. 5) 1, Deposit stranger (\<lambda>i. 2) 1, Cancel admin 1, Verify 0 0]
         laptop_pending_world))
       = (seed_phrase laptop_pending_row, seller_seed_phrase laptop_pending_row)"
proof -
  have h1: "laptop_pending_world
            = run ADMIN_IDS [new_laptop_deal 100, Deposit alice (\<lambda>i. 1) 1] (startup [] empty_db)"
    by (simp only: laptop_pending_world_def fresh_world_def)
  have h2: "rows (store laptop_pending_world) 1 = Some laptop_pending_row" by code_simp
  have h3: "\<not> falsy (seed_phrase laptop_pending_row)" by code_simp
  have h4: "\<not> falsy (seller_seed_phrase laptop_pending_row)" by code_simp
  have h5: "status laptop_pending_row \<noteq> NEW" by code_simp
  have h6: "status laptop_pending_row \<noteq> NEW
            \<or> \<not> list_ex (deposits_on 1)
                 [Seed alice (\<lambda>i. 5) 1, Deposit stranger (\<lambda>i. 2) 1, Cancel admin 1, Verify 0 0]"
    using h5 by simp
  have s: "safe_get_seed_phrases 1 (store laptop_pending_world)
           = (seed_phrase laptop_pending_row, seller_seed_phrase laptop_pending_row)"
    using h2 by (simp add: safe_get_seed_phrases_def)
  from seed_halves_stable_without_reseeding [OF h1 h2 h3 h4 h6]
  show ?thesis using h2 h3 h4 h5 s by simp
qed

text \<open>
  C4 as the specification words it fails: the halves stored when the deal was created
  are not the halves read back after the deposit on it.
\<close>

theorem deposit_replaces_halves_counterexample:
  "safe_get_seed_phrases 1 (store (run ADMIN_IDS [new_laptop_deal 100] fresh_world))
   = (Some ''abandon always alter also already alpha alone almost allow alley all alien'',
      Some ''alert alcohol album alarm aisle airport air aim ahead agree agent age'')
   \<and> safe_get_seed_phrases 1 (store (run ADMIN_IDS
        [new_laptop_deal 100, Deposit alice (\<lambda>i. 1) 1] fresh_world))
   = (Some ''ability always alter also already alpha alone almost allow alley all alien'',
      Some ''alert alcohol album alarm aisle airport air aim ahead agree agent age'')
   \<and> ''abandon always alter also already alpha alone almost allow alley all alien''
      \<noteq> ''ability always alter also already alpha alone almost allow alley all alien''"
  by code_simp

section \<open>Rounding of doubles\<close>

text \<open>Whole numbers below \<open>2 ^ 53\<close> are doubles, and rounding leaves them as they are.\<close>

lemma quotient_of_of_int: "quotient_of (of_int a) = (a, 1)"
  by (metis Rat.of_int_def quotient_of_int)

lemma floor_log2_of_int_le:
  assumes "\<bar>n\<bar> < 2 ^ 53"
  shows "floor_log2 (of_int n) \<le> 52"
proof -
  have q: "quotient_of \<bar>of_int n :: rat\<bar> = (\<bar>n\<bar>, 1)"
    using quotient_of_of_int [of "\<bar>n\<bar>"] by simp
  have b1: "bitlen 1 = 1" by (simp add: compute_bitlen)
  have "bitlen \<bar>n\<bar> \<le> 53" using assms by (simp add: bitlen_le_iff_power)
  then show ?thesis
    by (simp add: floor_log2_def q b1 Let_def)
qed

lemma to_double_of_int:
  assumes "\<bar>n\<bar> < 2 ^ 53"
  shows "to_double (of_int n) = of_int n"
proof (cases "n = 0")
  case True
  then show ?thesis by (simp add: to_double_def)
next
  case False
  define j where "j = max (floor_log2 (of_int n) - 52) (- 1074)"
  have j: "j \<le> 0" using floor_log2_of_int_le [OF assms] by (simp add: j_def)
  then have p: "pow2 j = 1 / 2 ^ nat (- j)" by (cases "j = 0") (simp_all add: pow2_def)
  have "(of_int n :: rat) / pow2 j = of_int (n * 2 ^ nat (- j))" by (simp add: p)
  then have r: "round_half_even (of_int n / pow2 j) = n * 2 ^ nat (- j)"
    by (simp only: round_half_even_of_int)
  have "to_double (of_int n) = of_int (round_half_even (of_int n / pow2 j)) * pow2 j"
    using False by (simp add: to_double_def j_def Let_def)
  also have "\<dots> = of_int n" by (simp only: r) (simp add: p)
  finally show ?thesis .
qed

lemma py_round2_of_int:
  assumes "\<bar>n\<bar> < 2 ^ 53"
  shows "py_round2 (of_int n) = of_int n"
proof -
  have "(of_int n :: rat) * 100 = of_int (n * 100)" by simp
  then have "round_half_even (of_int n * 100) = n * 100"
    by (simp only: round_half_even_of_int)
  then show ?thesis using to_double_of_int [OF assms] by (simp add: py_round2_def)
qed

text \<open>
  The exponent found by \<open>floor_log2\<close> is not too large, so the double chosen by
  \<open>to_double\<close> is within half a unit in the last place of the number.
\<close>

lemma pow2_powi: "pow2 k = 2 powi k"
  by (simp add: pow2_def power_int_def field_simps)

lemma pow2_pos: "0 < pow2 k"
  by (simp add: pow2_powi)

lemma pow2_add: "pow2 (a + b) = pow2 a * pow2 b"
  by (simp add: pow2_powi power_int_add)

lemma pow2_minus: "pow2 (- k) = 1 / pow2 k"
  by (simp add: pow2_powi power_int_minus field_simps)

lemma round_half_even_error: "\<bar>of_int (round_half_even y) - y\<bar> \<le> 1 / 2"
  unfolding round_half_even_def Let_def by (auto simp: abs_if) linarith+

lemma round_half_even_near:
  assumes "\<bar>y - of_int n\<bar> < 1 / 2"
  shows "round_half_even y = n"
proof -
  have "\<lfloor>y\<rfloor> = n \<or> \<lfloor>y\<rfloor> = n - 1" using assms by (auto simp: abs_if split: if_splits) linarith+
  then show ?thesis
  proof
    assume f: "\<lfloor>y\<rfloor> = n"
    then have "y - of_int n < 1 / 2" using assms by (auto simp: abs_if split: if_splits)
    then show ?thesis by (simp add: round_half_even_def f)
  next
    assume f: "\<lfloor>y\<rfloor> = n - 1"
    then have "y < of_int n" by (metis floor_less_iff diff_add_cancel less_add_one) 
    then have "1 / 2 < y - of_int (n - 1)" using assms by (auto simp: abs_if split: if_splits)
    then show ?thesis by (simp add: round_half_even_def f)
  qed
qed


lemma pow2_bitlen_le: "0 < p \<Longrightarrow> pow2 (bitlen p - 1) \<le> of_int p"
proof -
  assume p: "0 < p"
  then have b: "1 \<le> bitlen p" by (simp add: bitlen_alt_def)
  have "2 ^ nat (bitlen p - 1) \<le> p" using bitlen_bounds [OF p] by simp
  then have "(of_int (2 ^ nat (bitlen p - 1)) :: rat) \<le> of_int p" by (simp only: of_int_le_iff)
  then show ?thesis using b by (simp add: pow2_def)
qed

lemma le_pow2_bitlen: "0 < q \<Longrightarrow> of_int q \<le> pow2 (bitlen q)"
proof -
  assume q: "0 < q"
  have "q < 2 ^ nat (bitlen q)" using bitlen_bounds [OF q] by simp
  then have "q \<le> 2 ^ nat (bitlen q)" by simp
  then have "(of_int q :: rat) \<le> of_int (2 ^ nat (bitlen q))" by (simp only: of_int_le_iff)
  then show ?thesis using bitlen_nonneg [of q] by (simp add: pow2_def)
qed

lemma pow2_floor_log2_le:
  assumes "x \<noteq> 0"
  shows "pow2 (floor_log2 x) \<le> \<bar>x\<bar>"
proof -
  obtain p q where pq: "quotient_of \<bar>x\<bar> = (p, q)" by (cases "quotient_of \<bar>x\<bar>")
  have q: "0 < q" using quotient_of_denom_pos [OF pq] .
  have x: "\<bar>x\<bar> = of_int p / of_int q" using quotient_of_div [OF pq] .
  have "0 < \<bar>x\<bar>" using assms by simp
  then have p: "0 < p" using q by (simp add: x zero_less_divide_iff)
  define k where "k = bitlen p - bitlen q"
  show ?thesis
  proof (cases "pow2 k \<le> \<bar>x\<bar>")
    case True
    then show ?thesis by (simp add: floor_log2_def pq k_def Let_def)
  next
    case False
    have "k - 1 = (bitlen p - 1) + (- bitlen q)" by (simp add: k_def)
    then have "pow2 (k - 1) = pow2 (bitlen p - 1) / pow2 (bitlen q)"
      by (simp only: pow2_add pow2_minus) simp
    also have "\<dots> \<le> of_int p / of_int q"
      using pow2_bitlen_le [OF p] le_pow2_bitlen [OF q] q pow2_pos [of "bitlen p - 1"]
      by (intro frac_le) (simp_all add: less_imp_le)
    finally have "pow2 (k - 1) \<le> \<bar>x\<bar>" by (simp add: x)
    then show ?thesis using False by (simp add: floor_log2_def pq k_def Let_def)
  qed
qed

lemma to_double_error:
  assumes "x \<noteq> 0"
  shows "\<bar>to_double x - x\<bar> \<le> pow2 (max (floor_log2 x - 52) (- 1074)) / 2"
proof -
  define q where "q = pow2 (max (floor_log2 x - 52) (- 1074))"
  have q: "0 < q" by (simp add: q_def pow2_pos)
  have "to_double x - x = (of_int (round_half_even (x / q)) - x / q) * q"
    using assms q by (simp add: to_double_def q_def Let_def algebra_simps)
  then have "\<bar>to_double x - x\<bar> = \<bar>of_int (round_half_even (x / q)) - x / q\<bar> * q"
    using q by (simp add: abs_mult)
  also have "\<dots> \<le> (1 / 2) * q"
    using round_half_even_error [of "x / q"] q by (intro mult_right_mono) simp_all
  finally show ?thesis by (simp add: q_def)
qed

lemma py_round2_hundredths:
  assumes "\<bar>n\<bar> < 2 ^ 52"
  shows "py_round2 (to_double (of_int n / 100)) = to_double (of_int n / 100)"
proof (cases "n = 0")
  case True
  then show ?thesis by (simp add: py_round2_def to_double_def round_half_even_def)
next
  case False
  define x :: rat where "x = of_int n / 100"
  define a where "a = to_double x"
  define q where "q = pow2 (max (floor_log2 x - 52) (- 1074))"
  have x0: "x \<noteq> 0" using False by (simp add: x_def)
  have err: "\<bar>a - x\<bar> \<le> q / 2" unfolding a_def q_def by (rule to_double_error [OF x0])
  have nb: "\<bar>of_int n :: rat\<bar> < 2 ^ 52"
    using assms by (metis of_int_abs of_int_less_iff of_int_numeral of_int_power)
  have qb: "q * 100 < 1"
  proof (cases "floor_log2 x - 52 \<le> - 1074")
    case True
    then have "q = pow2 (- 1074)" by (simp add: q_def max_def)
    then show ?thesis by (simp add: pow2_def)
  next
    case False
    then have "q = pow2 (floor_log2 x + (- 52))" by (simp add: q_def max_def)
    also have "\<dots> = pow2 (floor_log2 x) * pow2 (- 52)" by (rule pow2_add)
    also have "\<dots> \<le> \<bar>x\<bar> * pow2 (- 52)"
      using pow2_floor_log2_le [OF x0] pow2_pos [of "- 52"] by (intro mult_right_mono) simp_all
    finally have "q * 100 \<le> \<bar>x\<bar> * 100 * pow2 (- 52)" by simp
    also have "\<bar>x\<bar> * 100 = \<bar>of_int n\<bar>" by (simp add: x_def)
    also have "\<bar>of_int n :: rat\<bar> * pow2 (- 52) < 1" using nb by (simp add: pow2_def field_simps)
    finally show ?thesis .
  qed
  have "\<bar>a * 100 - of_int n\<bar> = \<bar>a - x\<bar> * 100" by (simp add: x_def abs_if field_simps)
  also have "\<dots> \<le> q / 2 * 100" using err by simp
  also have "\<dots> < 1 / 2" using qb by simp
  finally have "round_half_even (a * 100) = n" by (rule round_half_even_near)
  then have "py_round2 a = to_double (of_int n / 100)" by (simp add: py_round2_def)
  then show ?thesis by (simp add: a_def x_def)
qed

text \<open>
  The model on the doubles of 19.99, 2.675 and 0.005: Python's \<open>round(x, 2)\<close> returns the
  doubles of 19.99, 2.67 and 0.01 there.
\<close>

lemma py_round2_examples:
  "py_round2 (to_double (1999 / 100)) = to_double (1999 / 100)"
  "py_round2 (to_double (2675 / 1000)) = to_double (267 / 100)"
  "py_round2 (to_double (5 / 1000)) = to_double (1 / 100)"
  by code_simp+

section \<open>The balance after a verified deposit\<close>

lemma get_deal_verified:
  assumes "get_deal deal_id c = Some d" and "r < 9 / 10"
  shows "get_deal deal_id (snd (schedule_deposit_verification deal_id expected r c))
         = Some (d\<lparr>d_status := FUNDED, d_escrow_balance := py_round2 expected\<rparr>)"
  using assms
  by (auto simp: schedule_deposit_verification_def verify_btc_deposit_def store_defs
      split: option.splits)

text \<open>
  C6, as the code has it. In a running system, when a waiting verification task of a deal
  in PENDING_DEPOSIT with a finite amount comes due and its check succeeds, the deal is
  FUNDED and its balance is \<open>round(amount, 2)\<close>, as \<open>update_deal_balance\<close> stores it: the
  double nearest to the amount rounded to two decimal places. That is the amount itself
  when the amount is the double of a number with at most two decimal places (of
  \<open>n / 100\<close> for a whole \<open>n\<close> below \<open>2 ^ 52\<close>), and when it is a whole number below
  \<open>2 ^ 53\<close>.
\<close>

theorem verified_deposit_balance:
  assumes "w = run admins cmds (startup sample_deals c0)"
    and "k < length (tasks w)" and "fst (tasks w ! k) = deal_id"
    and "get_deal deal_id (store w) = Some d" and "d_status d = PENDING_DEPOSIT"
    and "r < 9 / 10" and "\<bar>d_amount d\<bar> \<le> max_double"
  shows "get_deal deal_id (store (step admins (Verify k r) w))
           = Some (d\<lparr>d_status := FUNDED, d_escrow_balance := py_round2 (d_amount d)\<rparr>)
       \<and> (\<forall>n::int. \<bar>n\<bar> < 2 ^ 52 \<and> d_amount d = to_double (of_int n / 100)
              \<longrightarrow> py_round2 (d_amount d) = d_amount d)
       \<and> (\<forall>n::int. \<bar>n\<bar> < 2 ^ 53 \<and> d_amount d = of_int n
              \<longrightarrow> py_round2 (d_amount d) = d_amount d)"
proof -
  have k: "keys_below_seq (store w)"
    unfolding assms(1) by (intro run_keys_below_seq startup_keys_below_seq)
  have a: "tasks_agree w"
    unfolding assms(1)
    by (intro run_tasks_agree startup_keys_below_seq startup_tasks_agree)
  obtain row where row: "rows (store w) deal_id = Some row" and am: "d_amount d = amount row"
    using assms(4) by (auto simp: get_deal_def split: option.splits)
  have "tasks w ! k \<in> set (tasks w)" using assms(2) by simp
  then have "amount row = snd (tasks w ! k)"
    using a row assms(3) by (auto simp: tasks_agree_def)
  then have e: "snd (tasks w ! k) = d_amount d" using am by simp
  have st: "store (step admins (Verify k r) w)
        = snd (schedule_deposit_verification deal_id (d_amount d) r (store w))"
    using assms(2,3) e by (simp only: store_step_Verify if_True)
  have "get_deal deal_id (store (step admins (Verify k r) w))
        = Some (d\<lparr>d_status := FUNDED, d_escrow_balance := py_round2 (d_amount d)\<rparr>)"
    unfolding st by (rule get_deal_verified [OF assms(4,6)])
  moreover have "\<forall>n::int. \<bar>n\<bar> < 2 ^ 52 \<and> d_amount d = to_double (of_int n / 100)
      \<longrightarrow> py_round2 (d_amount d) = d_amount d"
  proof (intro allI impI, elim conjE)
    fix n :: int assume n: "\<bar>n\<bar> < 2 ^ 52" and eq: "d_amount d = to_double (of_int n / 100)"
    show "py_round2 (d_amount d) = d_amount d"
      unfolding eq by (rule py_round2_hundredths [OF n])
  qed
  moreover have "\<forall>n::int. \<bar>n\<bar> < 2 ^ 53 \<and> d_amount d = of_int n
      \<longrightarrow> py_round2 (d_amount d) = d_amount d"
  proof (intro allI impI, elim conjE)
    fix n :: int assume n: "\<bar>n\<bar> < 2 ^ 53" and eq: "d_amount d = of_int n"
    show "py_round2 (d_amount d) = d_amount d"
      unfolding eq by (rule py_round2_of_int [OF n])
  qed
  ultimately show ?thesis by simp
qed

lemma py_round2_100: "py_round2 100 = 100"
  using py_round2_of_int [of 100] by simp

theorem verified_deposit_balance_witness:
  "0 < length (tasks laptop_pending_world)
   \<and> fst (tasks laptop_pending_world ! 0) = 1
   \<and> get_deal 1 (store laptop_pending_world) = Some (laptop_deal PENDING_DEPOSIT 0)
   \<and> d_status (laptop_deal PENDING_DEPOSIT 0) = PENDING_DEPOSIT
   \<and> (0 :: rat) < 9 / 10
   \<and> \<bar>d_amount (laptop_deal PENDING_DEPOSIT 0)\<bar> \<le> max_double
   \<and> d_amount (laptop_deal PENDING_DEPOSIT 0) = of_int 100
   \<and> get_deal 1 (store (step ADMIN_IDS (Verify 0 0) laptop_pending_world))
       = Some (laptop_deal FUNDED 100)"
proof -
  have h1: "laptop_pending_world
            = run ADMIN_IDS [new_laptop_deal 100, Deposit alice (\<lambda>i. 1) 1] (startup [] empty_db)"
    by (simp only: laptop_pending_world_def fresh_world_def)
  have h2: "0 < length (tasks laptop_pending_world)" by code_simp
  have h3: "fst (tasks laptop_pending_world ! 0) = 1" by code_simp
  have h4: "get_deal 1 (store laptop_pending_world) = Some (laptop_deal PENDING_DEPOSIT 0)"
    by code_simp
  have h5: "d_status (laptop_deal PENDING_DEPOSIT 0) = PENDING_DEPOSIT" by simp
  have h6: "(0 :: rat) < 9 / 10" by simp
  have h7: "\<bar>d_amount (laptop_deal PENDING_DEPOSIT 0)\<bar> \<le> max_double"
    by (simp add: max_double_def)
  from verified_deposit_balance [OF h1 h2 h3 h4 h5 h6 h7]
  have "get_deal 1 (store (step ADMIN_IDS (Verify 0 0) laptop_pending_world))
        = Some (laptop_deal FUNDED 100)"
    by (simp add: laptop_deal_def py_round2_100)
  then show ?thesis using h2 h3 h4 h5 h6 h7 by simp
qed

text \<open>
  C6 as the specification words it fails: a deal over 0.125 (a double) is funded with the
  double of 0.12 as balance (the tie goes to the even hundredth), not with its amount.
\<close>

theorem verified_balance_rounded_counterexample:
  "map_option (\<lambda>d. (d_status d, d_amount d, d_escrow_balance d))
     (get_deal 1 (store (run ADMIN_IDS
        [new_laptop_deal (1 / 8), Deposit alice (\<lambda>i. 1) 1] fresh_world)))
   = Some (PENDING_DEPOSIT, 1 / 8, 0)
   \<and> map_option (\<lambda>d. (d_status d, d_amount d, d_escrow_balance d))
     (get_deal 1 (store (run ADMIN_IDS
        [new_laptop_deal (1 / 8), Deposit alice (\<lambda>i. 1) 1, Verify 0 0] fresh_world)))
   = Some (FUNDED, 1 / 8, 1080863910568919 / 9007199254740992)
   \<and> to_double (3 / 25) = 1080863910568919 / 9007199254740992
   \<and> (1080863910568919 / 9007199254740992 :: rat) \<noteq> 1 / 8"
  by code_simp

section \<open>A verification that comes due after a cancel\<close>

text \<open>What does hold: a task whose deal is gone, or whose check fails, writes nothing.\<close>

lemma verification_of_missing_deal:
  "rows c deal_id = None \<Longrightarrow> snd (schedule_deposit_verification deal_id expected r c) = c"
  by (simp add: schedule_deposit_verification_def verify_btc_deposit_def store_defs)

lemma verification_failed_check:
  "\<not> r < 9 / 10 \<Longrightarrow> snd (schedule_deposit_verification deal_id expected r c) = c"
  by (simp add: schedule_deposit_verification_def verify_btc_deposit_def)

text \<open>
  C2 does not hold of the code. \<open>verify_btc_deposit\<close> never reads the deal: a deal is
  created, its deposit is started, an administrator cancels it (CANCELED, balance 0),
  and when the waiting task then comes due with a successful check the deal is FUNDED
  with balance 100.
\<close>

theorem stale_verification_funds_canceled_deal:
  "map_option (\<lambda>d. (d_status d, d_escrow_balance d))
     (get_deal 1 (store (run ADMIN_IDS
        [new_laptop_deal 100, Deposit alice (\<lambda>i. 1) 1, Cancel admin 1] fresh_world)))
   = Some (CANCELED, 0)
   \<and> tasks (run ADMIN_IDS
        [new_laptop_deal 100, Deposit alice (\<lambda>i. 1) 1, Cancel admin 1] fresh_world)
     = [(1, 100)]
   \<and> map_option (\<lambda>d. (d_status d, d_escrow_balance d))
     (get_deal 1 (store (run ADMIN_IDS
        [new_laptop_deal 100, Deposit alice (\<lambda>i. 1) 1, Cancel admin 1, Verify 0 0]
        fresh_world)))
   = Some (FUNDED, 100)"
  by code_simp


end
